theory Spec2Isabelle
  imports Complex_Main "HOL-Library.Sublist" "HOL-Library.Log_Nat"
begin

section \<open>Strings\<close>

text \<open>
  JavaScript strings are sequences of UTF-16 code units. The model uses \<^typ>\<open>string\<close>,
  whose characters are the code units below 256 (Basic Latin and Latin-1 Supplement).
  On that range \<open>String.prototype.toLowerCase\<close> maps \<open>A\<close>..\<open>Z\<close> (65..90) and
  the Latin-1 capitals 192..222 other than the multiplication sign 215 to the code unit
  32 above, and leaves every other code unit alone.
\<close>

definition toLowerChar :: "char \<Rightarrow> char" where
  "toLowerChar c =
     (let n = (of_char c :: nat)
      in if (65 \<le> n \<and> n \<le> 90) \<or> (192 \<le> n \<and> n \<le> 222 \<and> n \<noteq> 215)
         then char_of (n + 32) else c)"

definition toLowerCase :: "string \<Rightarrow> string" where
  "toLowerCase s = map toLowerChar s"

text \<open>\<open>s.includes(k)\<close> on strings: \<open>k\<close> occurs in \<open>s\<close> as a contiguous substring.\<close>

fun str_includes :: "string \<Rightarrow> string \<Rightarrow> bool" where
  "str_includes [] k = (k = [])"
| "str_includes (c # cs) k = (prefix k (c # cs) \<or> str_includes cs k)"

text \<open>\<open>k.substring(0, n)\<close>: the first \<open>n\<close> code units, or all of \<open>k\<close> when it is shorter.\<close>

definition substring0 :: "string \<Rightarrow> nat \<Rightarrow> string" where
  "substring0 k n = take n k"

section \<open>Numbers\<close>

text \<open>
  JavaScript numbers are IEEE 754 binary64 values. A finite double is a rational number,
  and each arithmetic operation returns the exact result rounded to the nearest double,
  ties to the even significand. \<open>binary64\<close> is that rounding for the non-negative
  values the scorer computes (quotients of two array lengths and their product with 100,
  all in the normal range): \<open>binade x\<close> is \<open>\<lfloor>log\<^sub>2 x\<rfloor>\<close>, and the significand has 53 bits.
\<close>

definition binade :: "rat \<Rightarrow> int" where
  "binade x =
     (case quotient_of x of (p, q) \<Rightarrow>
        let d = bitlen p - bitlen q
        in if 2 powi d \<le> x then d else d - 1)"

definition roundTiesToEven :: "rat \<Rightarrow> int" where
  "roundTiesToEven y =
     (let f = \<lfloor>y\<rfloor>; r = y - of_int f
      in if r < 1 / 2 then f
         else if 1 / 2 < r then f + 1
         else if even f then f else f + 1)"

definition binary64 :: "rat \<Rightarrow> rat" where
  "binary64 x =
     (if x \<le> 0 then 0
      else let e = binade x - 52
           in of_int (roundTiesToEven (x / 2 powi e)) * 2 powi e)"

definition js_div :: "rat \<Rightarrow> rat \<Rightarrow> rat" where
  "js_div a b = binary64 (a / b)"

definition js_mul :: "rat \<Rightarrow> rat \<Rightarrow> rat" where
  "js_mul a b = binary64 (a * b)"

text \<open>\<open>Math.round(x)\<close>: the integer nearest to \<open>x\<close>, a tie going up.\<close>

definition Math_round :: "rat \<Rightarrow> int" where
  "Math_round x = \<lfloor>x + 1 / 2\<rfloor>"

section \<open>Results of a call\<close>

text \<open>
  A call returns a value or throws. The only exception the modelled code can raise is the
  \<open>SyntaxError\<close> of the \<open>RegExp\<close> constructor.
\<close>

datatype js_error = SyntaxError

datatype 'a outcome = Returns 'a | Throws js_error

section \<open>Content relevance (index\_jira\_backup.js)\<close>

subsection \<open>The two replacements that clean the name\<close>

text \<open>
  \<open>new RegExp(ticketId.toLowerCase() + '[-_]*', 'g')\<close> reads the lower-cased ticket ID as
  pattern source, and the only use of the expression is \<open>nameLower.replace(re, '')\<close>; the
  model keeps an expression as that replacement, a function on strings.

  A source without any of the syntax characters \<open>^ $ \ . * + ? ( ) [ ] { } |\<close> is a
  sequence of pattern characters, each matching itself, so the pattern is that literal
  text followed by a greedy run of dashes and underscores. For it, \<open>s.replace(re, '')\<close>
  with the global flag scans from the left: a match at the current position is deleted
  and the scan goes on behind it; an empty match (possible only when the literal is
  empty) deletes nothing and the scan moves one code unit on.
\<close>

definition regexSyntaxChars :: "char list" where
  "regexSyntaxChars =
     [CHR ''^'', CHR ''$'', CHR 0x5C, CHR ''.'', CHR ''*'', CHR ''+'', CHR ''?'',
      CHR ''('', CHR '')'', CHR ''['', CHR '']'', CHR ''{'', CHR ''}'', CHR ''|'']"

definition patternCharacters :: "string \<Rightarrow> bool" where
  "patternCharacters src = list_all (\<lambda>c. \<not> List.member regexSyntaxChars c) src"

definition isDashUnderscore :: "char \<Rightarrow> bool" where
  "isDashUnderscore c = (c = CHR ''-'' \<or> c = CHR ''_'')"

function removeTicketId :: "string \<Rightarrow> string \<Rightarrow> string" where
  "removeTicketId lit [] = []"
| "removeTicketId lit (c # cs) =
     (if prefix lit (c # cs)
      then (let rest = dropWhile isDashUnderscore (drop (length lit) (c # cs))
            in if length rest < length (c # cs) then removeTicketId lit rest
               else c # removeTicketId lit cs)
      else c # removeTicketId lit cs)"
  by pat_completeness auto
termination
  by (relation "measure (\<lambda>(lit, s). length s)") auto

text \<open>
  A source that starts with a quantifier \<open>*\<close>, \<open>+\<close> or \<open>?\<close> is no pattern at all (there is
  nothing to repeat) and the constructor throws a \<open>SyntaxError\<close>.

  Every other source with a syntax character is left to the platform's regular
  expression engine, which the model takes as the parameter \<open>engine\<close>: applied to the
  whole pattern source it is \<open>None\<close> when the constructor throws its \<open>SyntaxError\<close>, and
  otherwise the function \<open>s \<mapsto> s.replace(re, '')\<close> of the expression it builds. Nothing
  is assumed of it, so what is proved of such ticket IDs holds whatever the engine does
  with them.
\<close>

type_synonym regexp_engine = "string \<Rightarrow> (string \<Rightarrow> string) option"

definition startsWithQuantifier :: "string \<Rightarrow> bool" where
  "startsWithQuantifier src =
     (case src of [] \<Rightarrow> False
      | c # _ \<Rightarrow> List.member [CHR ''*'', CHR ''+'', CHR ''?''] c)"

definition ticketRegExp :: "regexp_engine \<Rightarrow> string \<Rightarrow> (string \<Rightarrow> string) outcome" where
  "ticketRegExp engine src =
     (if patternCharacters src then Returns (removeTicketId src)
      else if startsWithQuantifier src then Throws SyntaxError
      else case engine (src @ ''[-_]*'') of
             None \<Rightarrow> Throws SyntaxError
           | Some replaceAll \<Rightarrow> Returns replaceAll)"

text \<open>
  \<open>s.replace(/^(feature|bugfix|hotfix|release|chore)[-_\/]*/g, '')\<close>: the pattern is
  anchored at the start, so at most one match is deleted: one of the five words and the
  run of dashes, underscores and slashes behind it.
\<close>

definition branchPrefixes :: "string list" where
  "branchPrefixes = [''feature'', ''bugfix'', ''hotfix'', ''release'', ''chore'']"

definition isPrefixSeparator :: "char \<Rightarrow> bool" where
  "isPrefixSeparator c = (c = CHR ''-'' \<or> c = CHR ''_'' \<or> c = CHR ''/'')"

definition removePrefix :: "string \<Rightarrow> string" where
  "removePrefix s =
     (case List.find (\<lambda>p. prefix p s) branchPrefixes of
        None \<Rightarrow> s
      | Some p \<Rightarrow> dropWhile isPrefixSeparator (drop (length p) s))"

definition cleanName :: "regexp_engine \<Rightarrow> string \<Rightarrow> string \<Rightarrow> string outcome" where
  "cleanName engine name ticketId =
     (let nameLower = toLowerCase name
      in case ticketRegExp engine (toLowerCase ticketId) of
           Returns replaceAll \<Rightarrow> Returns (removePrefix (replaceAll nameLower))
         | Throws e \<Rightarrow> Throws e)"

subsection \<open>The verdict\<close>

text \<open>
  The message is a template filled with the unrounded percentage, the two counts and the
  summary; it is kept as the template's name and arguments. A field that the returned
  object does not have is \<open>None\<close>.
\<close>

datatype relevance_message =
    NoSummaryAvailable
  | ContentRelevance rat nat nat
  | LowContentRelevance rat string

record verdict =
  relevant :: bool
  matchPercentage :: "int option"
  matchedKeywords :: "string list option"
  missingKeywords :: "string list"
  allKeywords :: "string list option"
  relevanceMessage :: relevance_message

definition keywordMatches :: "string \<Rightarrow> string \<Rightarrow> bool" where
  "keywordMatches clean keyword =
     (str_includes clean keyword \<or>
      (length keyword \<ge> 4 \<and> str_includes clean (substring0 keyword 4)))"

definition percentage :: "nat \<Rightarrow> nat \<Rightarrow> rat" where
  "percentage matchedCount totalKeywords =
     (if totalKeywords > 0
      then js_mul (js_div (of_nat matchedCount) (of_nat totalKeywords)) 100 else 100)"

definition score :: "string list \<Rightarrow> string \<Rightarrow> string \<Rightarrow> verdict" where
  "score keywords ticketSummary clean =
     (let matched = filter (keywordMatches clean) keywords;
          matchPct = percentage (length matched) (length keywords);
          isRelevant = (matchPct \<ge> 30)
      in \<lparr> relevant = isRelevant,
           matchPercentage = Some (Math_round matchPct),
           matchedKeywords = Some matched,
           missingKeywords = filter (\<lambda>k. \<not> List.member matched k) keywords,
           allKeywords = Some keywords,
           relevanceMessage =
             (if isRelevant then ContentRelevance matchPct (length matched) (length keywords)
              else LowContentRelevance matchPct ticketSummary) \<rparr>)"

definition noSummaryVerdict :: verdict where
  "noSummaryVerdict =
     \<lparr> relevant = True, matchPercentage = None, matchedKeywords = None,
       missingKeywords = [], allKeywords = None,
       relevanceMessage = NoSummaryAvailable \<rparr>"

text \<open>
  \<open>extractKeywords\<close> is called by the function and exported by the module, but the module
  does not define it; the scorer takes it as the parameter \<open>extractKeywords\<close>. The
  summary is \<open>None\<close> when the caller passes \<open>undefined\<close> or \<open>null\<close>; those and the empty
  string are the falsy summaries.
\<close>

definition validateContentRelevance ::
  "regexp_engine \<Rightarrow> (string \<Rightarrow> string list) \<Rightarrow> string \<Rightarrow> string option \<Rightarrow> string \<Rightarrow>
   verdict outcome" where
  "validateContentRelevance engine extractKeywords name ticketSummary ticketId =
     (case ticketSummary of
        None \<Rightarrow> Returns noSummaryVerdict
      | Some summary \<Rightarrow>
          if summary = [] then Returns noSummaryVerdict
          else (let keywords = extractKeywords summary
                in case cleanName engine name ticketId of
                     Returns clean \<Rightarrow> Returns (score keywords summary clean)
                   | Throws e \<Rightarrow> Throws e))"

subsection \<open>Keyword extraction\<close>

text \<open>
  The module calls and exports \<open>extractKeywords\<close> but does not define it, and no other
  file of the repository does. The definitions of this subsection follow the spec
  instead. The minimum length, the maximum count and the stoplist are the configuration.
\<close>

record keywordConfig =
  minKeywordLength :: nat
  maxKeywords :: nat
  stoplist :: "string list"

text \<open>
  Modelled from the spec: the characters that are not boundaries in "split on
  non-alphanumeric boundaries" (the missing \<open>extractKeywords\<close>): digits and letters.
\<close>

definition isAlphanumeric :: "char \<Rightarrow> bool" where
  "isAlphanumeric c =
     (let n = (of_char c :: nat)
      in (48 \<le> n \<and> n \<le> 57) \<or> (65 \<le> n \<and> n \<le> 90) \<or> (97 \<le> n \<and> n \<le> 122))"

text \<open>
  Modelled from the spec: "split on non-alphanumeric boundaries" (the missing
  \<open>extractKeywords\<close>): the maximal runs of alphanumeric characters, in order; \<open>cur\<close> is
  the run being read, reversed.
\<close>

fun splitTokens :: "string \<Rightarrow> string \<Rightarrow> string list" where
  "splitTokens cur [] = (if cur = [] then [] else [rev cur])"
| "splitTokens cur (c # cs) =
     (if isAlphanumeric c then splitTokens (c # cur) cs
      else (if cur = [] then [] else [rev cur]) @ splitTokens [] cs)"

text \<open>
  Modelled from the spec: "deduplicate preserving first-seen order" (the missing
  \<open>extractKeywords\<close>): a token is kept the first time it is seen.
\<close>

fun dedupFrom :: "string list \<Rightarrow> string list \<Rightarrow> string list" where
  "dedupFrom seen [] = []"
| "dedupFrom seen (t # ts) =
     (if List.member seen t then dedupFrom seen ts else t # dedupFrom (t # seen) ts)"

text \<open>
  Modelled from the spec: "lower-case each token; discard tokens shorter than the minimum
  length; discard tokens present in a fixed stoplist" (the missing \<open>extractKeywords\<close>).
\<close>

definition candidateTokens :: "keywordConfig \<Rightarrow> string \<Rightarrow> string list" where
  "candidateTokens cfg summary =
     filter (\<lambda>t. \<not> List.member (stoplist cfg) t)
       (filter (\<lambda>t. minKeywordLength cfg \<le> length t)
          (map toLowerCase (splitTokens [] summary)))"

text \<open>
  Modelled from the spec: \<open>extractKeywords\<close>, which the module calls and exports but does
  not define. The steps are those the spec lists: split on non-alphanumeric boundaries;
  lower-case each token; discard tokens shorter than the minimum length; discard tokens
  present in a fixed stoplist; deduplicate preserving first-seen order; truncate to the
  maximum keyword count.
\<close>

definition extractKeywords :: "keywordConfig \<Rightarrow> string \<Rightarrow> string list" where
  "extractKeywords cfg summary =
     take (maxKeywords cfg) (dedupFrom [] (candidateTokens cfg summary))"

text \<open>The position at which a token is first seen, for stating the order of the result.\<close>

fun firstIndex :: "string list \<Rightarrow> string \<Rightarrow> nat" where
  "firstIndex [] t = 0"
| "firstIndex (x # xs) t = (if x = t then 0 else Suc (firstIndex xs t))"

section \<open>The simple validator\<close>

text \<open>
  The module without remote calls: \<open>validateBranchName\<close>, \<open>validateCommitMessage\<close> and
  \<open>validateBoth\<close> over the three patterns of \<open>PATTERNS\<close>. \<open>CONFIG\<close> is read from the
  environment once, when the module loads, and is a parameter here. The calls to
  \<open>console.log\<close> only print and are left out.
\<close>

record config =
  projectKeys :: "string list"
  skipValidation :: bool

subsection \<open>The patterns\<close>

definition isUpperAZ :: "char \<Rightarrow> bool" where
  "isUpperAZ c = (let n = (of_char c :: nat) in 65 \<le> n \<and> n \<le> 90)"

definition isDigit :: "char \<Rightarrow> bool" where
  "isDigit c = (let n = (of_char c :: nat) in 48 \<le> n \<and> n \<le> 57)"

definition isLineTerminator :: "char \<Rightarrow> bool" where
  "isLineTerminator c = (c = CHR 0x0A \<or> c = CHR 0x0D)"

definition isWhitespace :: "char \<Rightarrow> bool" where
  "isWhitespace c = List.member [9, 10, 11, 12, 13, 32, 160] (of_char c :: nat)"

text \<open>
  \<open>([A-Z]+)-(\d+)\<close> matched at the start of \<open>s\<close>: both runs are greedy, and giving a
  character back never helps, because the character that would then have to be the dash
  is a capital (or a digit). The result is the key, the number and the text behind the
  match.
\<close>

definition ticketAt :: "string \<Rightarrow> (string \<times> string \<times> string) option" where
  "ticketAt s =
     (let key = takeWhile isUpperAZ s
      in if key = [] then None
         else case dropWhile isUpperAZ s of
                [] \<Rightarrow> None
              | d # r \<Rightarrow>
                  if d \<noteq> CHR ''-'' then None
                  else let num = takeWhile isDigit r
                       in if num = [] then None
                          else Some (key, num, dropWhile isDigit r))"

text \<open>\<open>PATTERNS.commit\<close>, \<open>/^([A-Z]+)-(\d+)-(.+)$/\<close>: the groups 1 to 3 of a match.\<close>

definition matchCommit :: "string \<Rightarrow> (string \<times> string \<times> string) option" where
  "matchCommit s =
     (case ticketAt s of
        None \<Rightarrow> None
      | Some (key, num, rest) \<Rightarrow>
          (case rest of
             [] \<Rightarrow> None
           | d # description \<Rightarrow>
               if d = CHR ''-'' \<and> description \<noteq> [] \<and> \<not> list_ex isLineTerminator description
               then Some (key, num, description) else None))"

text \<open>
  \<open>PATTERNS.branch\<close>, \<open>/^(feature|bugfix|hotfix|release|chore)\/([A-Z]+)-(\d+)-(.+)$/\<close>:
  the groups 1 to 4 of a match.
\<close>

definition matchBranch :: "string \<Rightarrow> (string \<times> string \<times> string \<times> string) option" where
  "matchBranch s =
     (case List.find (\<lambda>p. prefix p s) branchPrefixes of
        None \<Rightarrow> None
      | Some p \<Rightarrow>
          (case drop (length p) s of
             [] \<Rightarrow> None
           | d # r \<Rightarrow>
               if d \<noteq> CHR ''/'' then None
               else (case matchCommit r of
                       None \<Rightarrow> None
                     | Some (key, num, description) \<Rightarrow> Some (p, key, num, description))))"

text \<open>\<open>PATTERNS.ticketId\<close>, \<open>/([A-Z]+)-(\d+)/\<close>: the text of the leftmost match.\<close>

fun extractTicketId :: "string \<Rightarrow> string option" where
  "extractTicketId [] = None"
| "extractTicketId (c # cs) =
     (case ticketAt (c # cs) of
        Some (key, num, rest) \<Rightarrow> Some (key @ ''-'' @ num)
      | None \<Rightarrow> extractTicketId cs)"

subsection \<open>Result objects\<close>

datatype vtype = Branch | Commit | OtherType

datatype message =
    UnknownValidationType
  | InvalidFormat vtype string
  | NoTicketIdFound vtype
  | InvalidProjectKey string "string list"
  | FormatValid vtype
  | BranchSkipped | BranchHasSpaces | BranchHasUnderscores | BranchNotLowercase | BranchValid
  | CommitSkipped | CommitHasSpaces | CommitHasUnderscores | CommitNotLowercase | CommitValid
  | TicketIdMismatch string string
  | BothValid
  | ValidationFailed

record result =
  valid :: bool
  message :: message

record validation = result +
  suggestion :: "string option"
  ticketId :: "string option"
  projectKey :: "string option"
  skipped :: "bool option"

record both = result +
  branchResult :: validation
  commitResult :: validation

definition failure :: "message \<Rightarrow> validation" where
  "failure m =
     \<lparr> valid = False, message = m, suggestion = None, ticketId = None, projectKey = None,
       skipped = None \<rparr>"

definition failureWith :: "message \<Rightarrow> string \<Rightarrow> validation" where
  "failureWith m s = (failure m) \<lparr> suggestion := Some s \<rparr>"

definition success :: "message \<Rightarrow> string option \<Rightarrow> string option \<Rightarrow> validation" where
  "success m t k =
     \<lparr> valid = True, message = m, suggestion = None, ticketId = t, projectKey = k,
       skipped = None \<rparr>"

definition skippedResult :: "message \<Rightarrow> validation" where
  "skippedResult m =
     \<lparr> valid = True, message = m, suggestion = None, ticketId = None, projectKey = None,
       skipped = Some True \<rparr>"

subsection \<open>The validators\<close>

definition firstProjectKey :: "config \<Rightarrow> string" where
  "firstProjectKey cfg = (case projectKeys cfg of [] \<Rightarrow> ''undefined'' | k # _ \<Rightarrow> k)"

fun getExpectedFormat :: "config \<Rightarrow> vtype \<Rightarrow> string" where
  "getExpectedFormat cfg Branch =
     firstProjectKey cfg @
       ''-1234-description (feature/bugfix/hotfix/release/chore prefix required)''"
| "getExpectedFormat cfg Commit = firstProjectKey cfg @ ''-1234-description''"
| "getExpectedFormat cfg OtherType = ''Valid format required''"

fun patternMatches :: "vtype \<Rightarrow> (string \<Rightarrow> bool) option" where
  "patternMatches Branch = Some (\<lambda>name. matchBranch name \<noteq> None)"
| "patternMatches Commit = Some (\<lambda>name. matchCommit name \<noteq> None)"
| "patternMatches OtherType = None"

definition validateFormat :: "config \<Rightarrow> string \<Rightarrow> vtype \<Rightarrow> validation" where
  "validateFormat cfg name type =
     (case patternMatches type of
        None \<Rightarrow> failure UnknownValidationType
      | Some matches \<Rightarrow>
          if \<not> matches name then failure (InvalidFormat type (getExpectedFormat cfg type))
          else (case extractTicketId name of
                  None \<Rightarrow> failure (NoTicketIdFound type)
                | Some tid \<Rightarrow>
                    let key = takeWhile (\<lambda>c. c \<noteq> CHR ''-'') tid
                    in if \<not> List.member (projectKeys cfg) key
                       then failure (InvalidProjectKey key (projectKeys cfg))
                       else success (FormatValid type) (Some tid) (Some key)))"

fun dashForWhitespace :: "bool \<Rightarrow> string \<Rightarrow> string" where
  "dashForWhitespace inRun [] = []"
| "dashForWhitespace inRun (c # cs) =
     (if isWhitespace c
      then (if inRun then dashForWhitespace True cs else CHR ''-'' # dashForWhitespace True cs)
      else c # dashForWhitespace False cs)"

definition dashForUnderscore :: "string \<Rightarrow> string" where
  "dashForUnderscore s = map (\<lambda>c. if c = CHR ''_'' then CHR ''-'' else c) s"

definition checkDescription ::
  "message \<Rightarrow> message \<Rightarrow> message \<Rightarrow> string \<Rightarrow> string \<Rightarrow> validation option" where
  "checkDescription spaces underscores lowercase stem description =
     (if str_includes description '' ''
      then Some (failureWith spaces (stem @ dashForWhitespace False description))
      else if str_includes description ''_''
      then Some (failureWith underscores (stem @ dashForUnderscore description))
      else if description \<noteq> toLowerCase description
      then Some (failureWith lowercase (stem @ toLowerCase description))
      else None)"

definition validateBranchName :: "config \<Rightarrow> string \<Rightarrow> validation" where
  "validateBranchName cfg branchName =
     (if skipValidation cfg then skippedResult BranchSkipped
      else let formatResult = validateFormat cfg branchName Branch
           in if \<not> valid formatResult then formatResult
              else let ok = success BranchValid (ticketId formatResult) (projectKey formatResult)
                   in (case matchBranch branchName of
                         None \<Rightarrow> ok
                       | Some (p, key, num, description) \<Rightarrow>
                           if description = [] then ok
                           else (case checkDescription BranchHasSpaces BranchHasUnderscores
                                        BranchNotLowercase
                                        (p @ ''/'' @ key @ ''-'' @ num @ ''-'') description of
                                   Some bad \<Rightarrow> bad
                                 | None \<Rightarrow> ok)))"

definition validateCommitMessage :: "config \<Rightarrow> string \<Rightarrow> validation" where
  "validateCommitMessage cfg commitMessage =
     (if skipValidation cfg then skippedResult CommitSkipped
      else let formatResult = validateFormat cfg commitMessage Commit
           in if \<not> valid formatResult then formatResult
              else let ok = success CommitValid (ticketId formatResult) (projectKey formatResult)
                   in (case matchCommit commitMessage of
                         None \<Rightarrow> ok
                       | Some (key, num, description) \<Rightarrow>
                           if description = [] then ok
                           else (case checkDescription CommitHasSpaces CommitHasUnderscores
                                        CommitNotLowercase
                                        (key @ ''-'' @ num @ ''-'') description of
                                   Some bad \<Rightarrow> bad
                                 | None \<Rightarrow> ok)))"

text \<open>
  A string is truthy when it is there and not empty; in a template literal a field that
  is not there reads \<open>undefined\<close>.
\<close>

definition truthy :: "string option \<Rightarrow> bool" where
  "truthy t = (case t of None \<Rightarrow> False | Some s \<Rightarrow> s \<noteq> [])"

definition interpolate :: "string option \<Rightarrow> string" where
  "interpolate t = (case t of None \<Rightarrow> ''undefined'' | Some s \<Rightarrow> s)"

definition validateBoth :: "config \<Rightarrow> string \<Rightarrow> string \<Rightarrow> both" where
  "validateBoth cfg branchName commitMessage =
     (let b = validateBranchName cfg branchName;
          c = validateCommitMessage cfg commitMessage
      in if valid b \<and> valid c \<and> truthy (ticketId b) \<and> truthy (ticketId c) \<and>
            ticketId b \<noteq> ticketId c
         then \<lparr> valid = False,
                message = TicketIdMismatch (interpolate (ticketId b))
                            (interpolate (ticketId c)),
                branchResult = b, commitResult = c \<rparr>
         else \<lparr> valid = (valid b \<and> valid c),
                message = (if valid b \<and> valid c then BothValid else ValidationFailed),
                branchResult = b, commitResult = c \<rparr>)"

section \<open>Test data\<close>

text \<open>
  The extractor that returns a given keyword list for every summary, for the scenarios
  that fix the keyword set; the keywords and the summary of the guide's example ticket
  SHOP-8548; the configuration the simple validator has when the
  environment sets nothing; and a ticket whose summary has forty keywords, twenty-three
  of which a branch name contains.
\<close>

definition givenKeywords :: "string list \<Rightarrow> string \<Rightarrow> string list" where
  "givenKeywords ks summary = ks"

definition giftCardKeywords :: "string list" where
  "giftCardKeywords = [''create'', ''app'', ''restrict'', ''gift'', ''cards'']"

definition giftCardSummary :: string where
  "giftCardSummary = ''POC - create app to restrict gift cards''"

definition defaultConfig :: config where
  "defaultConfig = \<lparr> projectKeys = [''SHOP'', ''PROJ'', ''TASK''], skipValidation = False \<rparr>"

text \<open>
  The ticket IDs of the examples have no syntax character, or start with a quantifier, so
  the engine is not asked about them (lemma \<open>engine_not_asked\<close> below). The examples pass
  the engine that accepts no source; any other engine gives the same results.
\<close>

definition rejectingEngine :: regexp_engine where
  "rejectingEngine src = None"

definition fortyKeywords :: "string list" where
  "fortyKeywords =
     [''add'', ''bug'', ''cap'', ''dev'', ''end'', ''fix'', ''get'', ''hub'', ''ink'', ''job'',
      ''key'', ''log'', ''map'', ''net'', ''opt'', ''pay'', ''que'', ''run'', ''set'', ''tag'',
      ''url'', ''var'', ''web'',
      ''zip'', ''zap'', ''zen'', ''zoo'', ''zed'', ''zig'', ''zag'', ''zit'', ''zoa'', ''zax'',
      ''zek'', ''zel'', ''zho'', ''zin'', ''zuz'', ''zzz'', ''zyx'']"

definition fortySummary :: string where
  "fortySummary =
     ''add bug cap dev end fix get hub ink job key log map net opt pay que run set tag '' @
     ''url var web zip zap zen zoo zed zig zag zit zoa zax zek zel zho zin zuz zzz zyx''"

definition fortyBranch :: string where
  "fortyBranch =
     ''feature/SHOP-1-add-bug-cap-dev-end-fix-get-hub-ink-job-key-log-map-net-opt-pay-que-run-set-tag-url-var-web''"

section \<open>Helper lemmas\<close>

subsection \<open>Strings and the verdict's fields\<close>

lemma toLowerChar_idem: "toLowerChar (toLowerChar c) = toLowerChar c"
  by (auto simp: toLowerChar_def Let_def)

lemma toLowerCase_idem: "toLowerCase (toLowerCase s) = toLowerCase s"
  by (induction s) (simp_all add: toLowerCase_def toLowerChar_idem)

lemma str_includes_sublist: "str_includes s k \<longleftrightarrow> sublist k s"
  by (induction s) (simp_all add: sublist_Cons_right)

lemma member_filter_matched:
  "filter (\<lambda>k. \<not> List.member (filter P ks) k) ks = filter (\<lambda>k. \<not> P k) ks"
  by (rule filter_cong) auto

lemma missing_of_score:
  "missingKeywords (score ks s clean) = filter (\<lambda>k. \<not> keywordMatches clean k) ks"
  unfolding score_def Let_def by (simp only: verdict.simps member_filter_matched)

lemma score_fields:
  "matchedKeywords (score ks s clean) = Some (filter (keywordMatches clean) ks)"
  "allKeywords (score ks s clean) = Some ks"
  "matchPercentage (score ks s clean) =
     Some (Math_round (percentage (length (filter (keywordMatches clean) ks)) (length ks)))"
  "relevant (score ks s clean) =
     (30 \<le> percentage (length (filter (keywordMatches clean) ks)) (length ks))"
  by (simp_all add: score_def Let_def)

lemma scoring_call:
  assumes "validateContentRelevance rx ek name (Some summary) tid = Returns v" and "summary \<noteq> []"
  obtains clean where "cleanName rx name tid = Returns clean" and "v = score (ek summary) summary clean"
  using assms by (auto simp: validateContentRelevance_def Let_def split: outcome.splits)

lemma cleanName_lower:
  "cleanName rx (toLowerCase name) tid = cleanName rx name tid"
  "cleanName rx name (toLowerCase tid) = cleanName rx name tid"
  by (simp_all add: cleanName_def toLowerCase_idem)

lemma pattern_returns:
  assumes "patternCharacters (toLowerCase tid)"
  shows "cleanName rx name tid =
    Returns (removePrefix (removeTicketId (toLowerCase tid) (toLowerCase name)))"
  using assms by (simp add: cleanName_def ticketRegExp_def)

lemma quantifier_not_pattern:
  assumes "startsWithQuantifier src"
  shows "\<not> patternCharacters src"
  using assms
  by (cases src) (auto simp: startsWithQuantifier_def patternCharacters_def regexSyntaxChars_def)

lemma quantifier_throws:
  assumes "startsWithQuantifier (toLowerCase tid)"
  shows "cleanName rx name tid = Throws SyntaxError"
  using assms quantifier_not_pattern[OF assms] by (simp add: cleanName_def ticketRegExp_def)

lemma engine_not_asked:
  assumes "patternCharacters (toLowerCase tid) \<or> startsWithQuantifier (toLowerCase tid)"
  shows "validateContentRelevance rx ek name summary tid =
         validateContentRelevance rx' ek name summary tid"
proof -
  from assms have "cleanName rx name tid = cleanName rx' name tid"
    by (auto simp: pattern_returns quantifier_throws)
  then show ?thesis
    by (simp add: validateContentRelevance_def Let_def split: option.splits)
qed

lemma clean_gift_card_app:
  "cleanName rx ''feature/SHOP-8548-gift-card-app'' ''SHOP-8548'' = Returns ''gift-card-app''"
proof -
  have p: "patternCharacters (toLowerCase ''SHOP-8548'')" by code_simp
  have "removePrefix (removeTicketId (toLowerCase ''SHOP-8548'')
      (toLowerCase ''feature/SHOP-8548-gift-card-app'')) = ''gift-card-app''"
    by code_simp
  then show ?thesis by (simp only: pattern_returns[OF p])
qed

lemma matched_gift_card_app:
  "filter (keywordMatches ''gift-card-app'')
     [''create'', ''app'', ''restrict'', ''gift'', ''cards''] = [''app'', ''gift'', ''cards'']"
  by code_simp

lemma missing_gift_card_app:
  "filter (\<lambda>k. \<not> keywordMatches ''gift-card-app'' k)
     [''create'', ''app'', ''restrict'', ''gift'', ''cards''] = [''create'', ''restrict'']"
  by code_simp

lemma percentage_3_5: "Math_round (percentage 3 5) = 60"
  by code_simp

lemma giftCardSummary_nonempty: "giftCardSummary \<noteq> []"
  by (simp add: giftCardSummary_def)

lemma giftCardKeywords_matched:
  "filter (keywordMatches ''gift-card-app'') giftCardKeywords = [''app'', ''gift'', ''cards'']"
  unfolding giftCardKeywords_def by (rule matched_gift_card_app)

lemma scored_gift_card_app:
  "validateContentRelevance rx (givenKeywords ks) ''feature/SHOP-8548-gift-card-app''
     (Some giftCardSummary) ''SHOP-8548'' = Returns (score ks giftCardSummary ''gift-card-app'')"
  by (simp add: validateContentRelevance_def clean_gift_card_app givenKeywords_def
      giftCardSummary_nonempty)

subsection \<open>Keyword extraction\<close>

lemma dedupFrom_fresh: "x \<in> set (dedupFrom seen ts) \<Longrightarrow> x \<notin> set seen"
proof (induction ts arbitrary: seen)
  case Nil
  then show ?case by simp
next
  case (Cons t ts)
  show ?case
  proof (cases "t \<in> set seen")
    case True
    with Cons.prems have "x \<in> set (dedupFrom seen ts)" by simp
    then show ?thesis by (rule Cons.IH)
  next
    case False
    with Cons.prems have "x = t \<or> x \<in> set (dedupFrom (t # seen) ts)" by simp
    then show ?thesis
    proof
      assume "x = t" with False show ?thesis by simp
    next
      assume "x \<in> set (dedupFrom (t # seen) ts)"
      then have "x \<notin> set (t # seen)" by (rule Cons.IH)
      then show ?thesis by simp
    qed
  qed
qed

lemma dedupFrom_subset: "set (dedupFrom seen ts) \<subseteq> set ts"
  by (induction ts arbitrary: seen) auto

lemma dedupFrom_distinct: "distinct (dedupFrom seen ts)"
proof (induction ts arbitrary: seen)
  case Nil
  show ?case by simp
next
  case (Cons t ts)
  have "t \<notin> set (dedupFrom (t # seen) ts)" using dedupFrom_fresh[of t "t # seen" ts] by auto
  with Cons show ?case by simp
qed

lemma dedupFrom_first_seen:
  "sorted_wrt (\<lambda>a b. firstIndex ts a < firstIndex ts b) (dedupFrom seen ts)"
proof (induction ts arbitrary: seen)
  case Nil
  show ?case by simp
next
  case (Cons t ts)
  have shift: "sorted_wrt (\<lambda>a b. firstIndex (t # ts) a < firstIndex (t # ts) b) (dedupFrom s ts)"
    if "t \<in> set s" for s
  proof (rule sorted_wrt_mono_rel[OF _ Cons.IH[of s]])
    fix a b
    assume "a \<in> set (dedupFrom s ts)" "b \<in> set (dedupFrom s ts)"
      and "firstIndex ts a < firstIndex ts b"
    moreover from this that dedupFrom_fresh[of a s ts] dedupFrom_fresh[of b s ts]
    have "a \<noteq> t" "b \<noteq> t" by auto
    ultimately show "firstIndex (t # ts) a < firstIndex (t # ts) b" by simp
  qed
  show ?case
  proof (cases "t \<in> set seen")
    case True
    then show ?thesis using shift[of seen] by simp
  next
    case False
    have "\<forall>b\<in>set (dedupFrom (t # seen) ts). t \<noteq> b"
      using dedupFrom_fresh[of _ "t # seen" ts] by auto
    then show ?thesis using False shift[of "t # seen"] by simp
  qed
qed


subsection \<open>The simple validator\<close>

lemma extractTicketId_nonempty: "extractTicketId s = Some t \<Longrightarrow> t \<noteq> []"
  by (induction s) (auto split: option.splits)

lemma validateFormat_ticketId:
  "ticketId (validateFormat cfg name type) = Some t \<Longrightarrow> t \<noteq> []"
  by (auto simp: validateFormat_def failure_def success_def Let_def
      split: option.splits if_splits dest: extractTicketId_nonempty)

lemma validateBranchName_ticketId:
  "ticketId (validateBranchName cfg b) = Some t \<Longrightarrow> t \<noteq> []"
  by (auto simp: validateBranchName_def skippedResult_def success_def checkDescription_def
      failureWith_def failure_def Let_def
      split: option.splits if_splits dest: validateFormat_ticketId)

lemma validateCommitMessage_ticketId:
  "ticketId (validateCommitMessage cfg c) = Some t \<Longrightarrow> t \<noteq> []"
  by (auto simp: validateCommitMessage_def skippedResult_def success_def checkDescription_def
      failureWith_def failure_def Let_def
      split: option.splits if_splits dest: validateFormat_ticketId)

lemma valid_branch_SHOP_12:
  "validateBranchName defaultConfig ''feature/SHOP-12-add-thing'' =
     success BranchValid (Some ''SHOP-12'') (Some ''SHOP'')"
  by code_simp

lemma valid_commit_SHOP_13:
  "validateCommitMessage defaultConfig ''SHOP-13-add-thing'' =
     success CommitValid (Some ''SHOP-13'') (Some ''SHOP'')"
  by code_simp

lemma valid_commit_SHOP_12:
  "validateCommitMessage defaultConfig ''SHOP-12-other'' =
     success CommitValid (Some ''SHOP-12'') (Some ''SHOP'')"
  by code_simp

subsection \<open>Double-precision arithmetic of the percentage\<close>

text \<open>
  Each rounding to binary64 moves a positive value by at most half a unit in the last
  place, \<open>2 ^ (binade x - 53)\<close>. For a quotient of at most 1 and its product with 100
  the computed percentage is therefore within \<open>164 / 2 ^ 53\<close> of the exact one. An exact
  percentage \<open>100 * m / k\<close> that is not a tie \<open>n + 1/2\<close> is at least \<open>1 / (2 * k)\<close> away
  from every tie, which for \<open>k < 2 ^ 32\<close> is more than that error, so that \<open>Math.round\<close>
  of the computed and of the exact value agree. A tie has a keyword count divisible by
  8; below 40 keywords it is 100 times an odd number of eighths, which the two
  operations compute exactly. The same bound settles the comparison with 30.
\<close>

lemma bitlen_pos: "0 < (p::int) \<Longrightarrow> 1 \<le> bitlen p"
  by (simp add: bitlen_alt_def)

lemma bitlen_bounds_rat:
  assumes "0 < (p::int)"
  shows "(2::rat) powi (bitlen p - 1) \<le> of_int p" and "of_int p < (2::rat) powi (bitlen p)"
proof -
  from bitlen_bounds[OF assms]
  have lo: "2 ^ nat (bitlen p - 1) \<le> p" and hi: "p < 2 ^ nat (bitlen p)" by simp_all
  have b: "1 \<le> bitlen p" using assms by (rule bitlen_pos)
  have "(of_int (2 ^ nat (bitlen p - 1)) :: rat) \<le> of_int p" using lo by (simp only: of_int_le_iff)
  then show "(2::rat) powi (bitlen p - 1) \<le> of_int p"
    using b by (simp add: power_int_def)
  have "(of_int p :: rat) < of_int (2 ^ nat (bitlen p))" using hi by (simp only: of_int_less_iff)
  then show "of_int p < (2::rat) powi (bitlen p)"
    using b by (simp add: power_int_def)
qed

lemma binade_bounds:
  assumes "0 < x"
  shows "2 powi (binade x) \<le> x" and "x < 2 powi (binade x + 1)"
proof -
  obtain p q where pq: "quotient_of x = (p, q)" by (cases "quotient_of x")
  then have q: "0 < q" and x: "x = of_int p / of_int q"
    by (auto dest: quotient_of_denom_pos quotient_of_div)
  with assms have p: "0 < p" by (simp add: zero_less_divide_iff)
  define a b where "a = bitlen p" and "b = bitlen q"
  note pa = bitlen_bounds_rat[OF p, folded a_def]
  note qb = bitlen_bounds_rat[OF q, folded b_def]
  have qpos: "(0::rat) < of_int q" using q by simp
  have ppos: "(0::rat) < of_int p" using p by simp
  have two: "(0::rat) < 2 powi i" for i by simp
  have "2 powi (a - b - 1) = (2::rat) powi (a - 1) / 2 powi b"
    by (simp add: power_int_diff)
  also have "\<dots> \<le> of_int p / 2 powi b"
    using pa(1) two[of b] by (simp add: divide_right_mono)
  also have "\<dots> < of_int p / of_int q"
    using qb(2) ppos qpos by (simp add: divide_strict_left_mono)
  finally have lo: "2 powi (a - b - 1) < x" by (simp add: x)
  have "x = of_int p / of_int q" by (rule x)
  also have "\<dots> < 2 powi a / of_int q"
    using pa(2) qpos by (simp add: divide_strict_right_mono)
  also have "\<dots> \<le> 2 powi a / 2 powi (b - 1)"
    using qb(1) two[of "b - 1"] two[of a] qpos by (simp add: divide_left_mono)
  also have "\<dots> = 2 powi (a - b + 1)"
    by (simp add: power_int_diff power_int_add)
  finally have hi: "x < 2 powi (a - b + 1)" .
  have bin: "binade x = (if 2 powi (a - b) \<le> x then a - b else a - b - 1)"
    by (simp add: binade_def pq a_def b_def Let_def)
  show "2 powi (binade x) \<le> x" using lo by (simp add: bin)
  show "x < 2 powi (binade x + 1)" using hi by (simp add: bin not_le)
qed
lemma roundTiesToEven_error: "\<bar>of_int (roundTiesToEven y) - y\<bar> \<le> 1 / 2"
proof -
  have fl: "of_int \<lfloor>y\<rfloor> \<le> y" "y < of_int \<lfloor>y\<rfloor> + 1" by linarith+
  have "roundTiesToEven y = \<lfloor>y\<rfloor> \<or> roundTiesToEven y = \<lfloor>y\<rfloor> + 1"
    by (simp add: roundTiesToEven_def Let_def)
  then consider (down) "roundTiesToEven y = \<lfloor>y\<rfloor>" | (up) "roundTiesToEven y = \<lfloor>y\<rfloor> + 1"
    by blast
  then show ?thesis
  proof cases
    case down
    then have "y - of_int \<lfloor>y\<rfloor> \<le> 1 / 2"
      by (simp add: roundTiesToEven_def Let_def split: if_splits)
    moreover have "of_int (roundTiesToEven y) - y = of_int \<lfloor>y\<rfloor> - y"
      by (simp only: down)
    ultimately show ?thesis using fl by linarith
  next
    case up
    then have "1 / 2 \<le> y - of_int \<lfloor>y\<rfloor>"
      by (simp add: roundTiesToEven_def Let_def split: if_splits)
    moreover have "of_int (roundTiesToEven y) - y = of_int \<lfloor>y\<rfloor> + 1 - y"
      by (simp only: up of_int_add of_int_1)
    ultimately show ?thesis using fl by linarith
  qed
qed

lemma roundTiesToEven_ge: "of_int n \<le> y \<Longrightarrow> n \<le> roundTiesToEven y"
proof -
  assume "of_int n \<le> y"
  then have "n \<le> \<lfloor>y\<rfloor>" by (simp add: le_floor_iff)
  then show ?thesis by (auto simp: roundTiesToEven_def Let_def)
qed

lemma binary64_pos:
  assumes "0 < x" shows "0 < binary64 x"
proof -
  define e where "e = binade x - 52"
  have "2 powi (binade x) \<le> x" using assms by (rule binade_bounds)
  then have "2 powi (binade x) / 2 powi e \<le> x / 2 powi e"
    by (simp add: divide_right_mono)
  then have "(2::rat) powi 52 \<le> x / 2 powi e"
    by (simp add: e_def power_int_diff)
  then have "of_int (2 ^ 52) \<le> x / 2 powi e" by simp
  then have "2 ^ 52 \<le> roundTiesToEven (x / 2 powi e)" by (rule roundTiesToEven_ge)
  then have "0 < roundTiesToEven (x / 2 powi e)" by simp
  then show ?thesis using assms by (simp add: binary64_def e_def Let_def)
qed

lemma binary64_error:
  assumes "0 < x"
  shows "\<bar>binary64 x - x\<bar> \<le> 2 powi (binade x - 53)"
proof -
  define e where "e = binade x - 52"
  define y where "y = x / 2 powi e"
  have x: "x = y * 2 powi e" by (simp add: y_def)
  have "binary64 x = of_int (roundTiesToEven y) * 2 powi e"
    using assms by (simp add: binary64_def e_def y_def Let_def)
  then have "binary64 x - x = (of_int (roundTiesToEven y) - y) * 2 powi e"
    by (simp add: x algebra_simps)
  then have "\<bar>binary64 x - x\<bar> = \<bar>of_int (roundTiesToEven y) - y\<bar> * 2 powi e"
    by (simp add: abs_mult)
  also have "\<dots> \<le> (1 / 2) * 2 powi e"
    by (rule mult_right_mono[OF roundTiesToEven_error]) simp
  also have "\<dots> = 2 powi (binade x - 53)"
    by (simp add: e_def power_int_diff)
  finally show ?thesis .
qed

lemma binade_less:
  assumes "0 < x" and "x < 2 powi n" shows "binade x < n"
proof (rule ccontr)
  assume "\<not> binade x < n"
  then have "n \<le> binade x" by simp
  then have "(2::rat) powi n \<le> 2 powi (binade x)" by (simp add: power_int_increasing)
  also have "\<dots> \<le> x" using assms(1) by (rule binade_bounds)
  finally show False using assms(2) by simp
qed
lemma percentage_zero: "0 < k \<Longrightarrow> percentage 0 k = 0"
  by (simp add: percentage_def js_mul_def js_div_def binary64_def)

lemma percentage_error:
  assumes k: "0 < k" and mk: "m \<le> k"
  shows "\<bar>percentage m k - 100 * of_nat m / of_nat k\<bar> \<le> 164 / 2 ^ 53"
    and "0 \<le> percentage m k"
proof -
  have "\<bar>percentage m k - 100 * of_nat m / of_nat k\<bar> \<le> 164 / 2 ^ 53 \<and> 0 \<le> percentage m k"
  proof (cases "m = 0")
    case True
    then show ?thesis using k by (simp add: percentage_zero)
  next
    case False
    define x :: rat where "x = of_nat m / of_nat k"
    define d where "d = binary64 x"
    define z where "z = d * 100"
    have x0: "0 < x" and x1: "x \<le> 1" using False k mk by (simp_all add: x_def)
    have p: "percentage m k = binary64 z"
      using k by (simp add: percentage_def js_mul_def js_div_def z_def d_def x_def)
    have "binade x < 1" using x0 x1 by (intro binade_less) simp_all
    then have "2 powi (binade x - 53) \<le> (2::rat) powi (- 53)"
      by (intro power_int_increasing) simp_all
    with binary64_error[OF x0] have "\<bar>d - x\<bar> \<le> 2 powi (- 53)"
      unfolding d_def by (rule order_trans)
    then have dx: "\<bar>d - x\<bar> \<le> 1 / 2 ^ 53" by (simp add: power_int_minus field_simps)
    have d0: "0 < d" using x0 by (simp add: d_def binary64_pos)
    then have z0: "0 < z" by (simp add: z_def)
    have "z < 128" using dx x1 by (simp add: z_def abs_if split: if_splits)
    then have "z < 2 powi 7" by simp
    with z0 have "binade z < 7" by (rule binade_less)
    then have "2 powi (binade z - 53) \<le> (2::rat) powi (- 47)"
      by (intro power_int_increasing) simp_all
    with binary64_error[OF z0] have "\<bar>binary64 z - z\<bar> \<le> 2 powi (- 47)"
      by (rule order_trans)
    then have pz: "\<bar>binary64 z - z\<bar> \<le> 64 / 2 ^ 53" by (simp add: power_int_minus field_simps)
    have zx: "\<bar>z - 100 * x\<bar> \<le> 100 / 2 ^ 53"
      using dx by (simp add: z_def abs_if split: if_splits)
    have "\<bar>binary64 z - 100 * x\<bar> \<le> 164 / 2 ^ 53" using pz zx by linarith
    moreover have "0 \<le> binary64 z" using binary64_pos[OF z0] by simp
    ultimately show ?thesis by (simp add: p x_def)
  qed
  then show "\<bar>percentage m k - 100 * of_nat m / of_nat k\<bar> \<le> 164 / 2 ^ 53"
    and "0 \<le> percentage m k" by simp_all
qed

lemma percentage_eighths:
  "binary64 (binary64 (1 / 8) * 100) = 100 * (1 / 8)"
  "binary64 (binary64 (3 / 8) * 100) = 100 * (3 / 8)"
  "binary64 (binary64 (5 / 8) * 100) = 100 * (5 / 8)"
  "binary64 (binary64 (7 / 8) * 100) = 100 * (7 / 8)"
  by code_simp+

lemma tie_multiple_of_8:
  fixes m k :: nat
  assumes "(200 * m + k) mod (2 * k) = 0"
  shows "8 dvd k"
proof -
  from assms have "2 * k dvd 200 * m + k" by (simp add: mod_eq_0_iff_dvd)
  then obtain n where n: "200 * m + k = 2 * k * n" by (auto simp: dvd_def)
  define t :: int where "t = 2 * int n - 1"
  have "int (200 * m + k) = int (2 * k * n)" by (simp only: n)
  then have e: "200 * int m = int k * t" by (simp add: t_def algebra_simps)
  have "odd t" by (simp add: t_def)
  then have "coprime 2 t" by (simp add: coprime_left_2_iff_odd)
  then have "coprime ((2::int) ^ 3) t"
    by (rule coprime_power_left_iff [THEN iffD2, OF disjI1])
  then have c: "coprime 8 t" by simp
  have "(8::int) dvd 200 * int m" by simp
  then have "8 dvd int k * t" by (simp only: e)
  with c have "8 dvd int k" by (simp add: coprime_dvd_mult_left_iff)
  then show ?thesis by presburger
qed

lemma ties_below_40:
  fixes m k :: nat
  assumes "0 < k" "k < 40" "m \<le> k" "(200 * m + k) mod (2 * k) = 0"
  shows "8 * m = k \<or> 8 * m = 3 * k \<or> 8 * m = 5 * k \<or> 8 * m = 7 * k"
proof -
  from assms(4) have "2 * k dvd 200 * m + k" by (simp add: mod_eq_0_iff_dvd)
  then obtain n where n: "200 * m + k = 2 * k * n" by (auto simp: dvd_def)
  have "8 dvd k" using assms(4) by (rule tie_multiple_of_8)
  then obtain c where c: "k = 8 * c" by (auto simp: dvd_def)
  with assms(1,2) have "c = 1 \<or> c = 2 \<or> c = 3 \<or> c = 4" by arith
  then consider "c = 1" | "c = 2" | "c = 3" | "c = 4" by blast
  then show ?thesis
  proof cases
    case 1
    with n c assms(3) have "25 * m + 1 = 2 * n" "m \<le> 8" by simp_all
    then have "m = 1 \<or> m = 3 \<or> m = 5 \<or> m = 7" by presburger
    with 1 c show ?thesis by auto
  next
    case 2
    with n c assms(3) have "25 * m + 2 = 4 * n" "m \<le> 16" by simp_all
    then have "m = 2 \<or> m = 6 \<or> m = 10 \<or> m = 14" by presburger
    with 2 c show ?thesis by auto
  next
    case 3
    with n c assms(3) have "25 * m + 3 = 6 * n" "m \<le> 24" by simp_all
    then have "m = 3 \<or> m = 9 \<or> m = 15 \<or> m = 21" by presburger
    with 3 c show ?thesis by auto
  next
    case 4
    with n c assms(3) have "25 * m + 4 = 8 * n" "m \<le> 32" by simp_all
    then have "m = 4 \<or> m = 12 \<or> m = 20 \<or> m = 28" by presburger
    with 4 c show ?thesis by auto
  qed
qed

lemma percentage_of_ratio:
  assumes "0 < k" and "of_nat m / of_nat k = (x::rat)"
  shows "percentage m k = binary64 (binary64 x * 100)"
  using assms by (simp add: percentage_def js_mul_def js_div_def)

lemma percentage_tie:
  assumes "0 < k" "k < 40" "m \<le> k" "(200 * m + k) mod (2 * k) = 0"
  shows "percentage m k = 100 * of_nat m / of_nat k"
proof -
  have k0: "(of_nat k :: rat) \<noteq> 0" using assms(1) by simp
  from ties_below_40[OF assms]
  consider "8 * m = k" | "8 * m = 3 * k" | "8 * m = 5 * k" | "8 * m = 7 * k" by blast
  then show ?thesis
  proof cases
    case 1
    then have "(of_nat (8 * m) :: rat) = of_nat k" by simp
    then have r: "of_nat m / of_nat k = (1 / 8 :: rat)" using k0 by (simp add: field_simps)
    show ?thesis by (simp only: percentage_of_ratio[OF assms(1) r] percentage_eighths) (simp add: r[symmetric])
  next
    case 2
    then have "(of_nat (8 * m) :: rat) = of_nat (3 * k)" by simp
    then have r: "of_nat m / of_nat k = (3 / 8 :: rat)" using k0 by (simp add: field_simps)
    show ?thesis by (simp only: percentage_of_ratio[OF assms(1) r] percentage_eighths) (simp add: r[symmetric])
  next
    case 3
    then have "(of_nat (8 * m) :: rat) = of_nat (5 * k)" by simp
    then have r: "of_nat m / of_nat k = (5 / 8 :: rat)" using k0 by (simp add: field_simps)
    show ?thesis by (simp only: percentage_of_ratio[OF assms(1) r] percentage_eighths) (simp add: r[symmetric])
  next
    case 4
    then have "(of_nat (8 * m) :: rat) = of_nat (7 * k)" by simp
    then have r: "of_nat m / of_nat k = (7 / 8 :: rat)" using k0 by (simp add: field_simps)
    show ?thesis by (simp only: percentage_of_ratio[OF assms(1) r] percentage_eighths) (simp add: r[symmetric])
  qed
qed

lemma Math_round_percentage_off_ties:
  assumes k: "0 < k" and k32: "k < 2 ^ 32" and mk: "m \<le> k"
    and off: "(200 * m + k) mod (2 * k) \<noteq> 0"
  shows "Math_round (percentage m k) = round (100 * of_nat m / of_nat k :: rat)"
proof -
  define q :: rat where "q = 100 * of_nat m / of_nat k"
  define p where "p = percentage m k"
  define N :: int where "N = int (200 * m + k)"
  define K :: int where "K = int (2 * k)"
  define n where "n = N div K"
  define r where "r = N mod K"
  define a :: rat where "a = of_int r / of_int K"
  have K0: "0 < K" and K33: "K \<le> 2 ^ 33" using k k32 by (simp_all add: K_def)
  have "r \<noteq> 0" using off unfolding r_def N_def K_def
    by (simp only: zmod_int[symmetric] of_nat_eq_0_iff) simp
  moreover have "0 \<le> r" "r < K" using K0 by (simp_all add: r_def)
  ultimately have r1: "1 \<le> r" and rK: "r \<le> K - 1" by simp_all
  have NK: "N = K * n + r" by (simp add: n_def r_def)
  have Kr: "(0::rat) < of_int K" using K0 by simp
  have qh: "q + 1 / 2 = of_int N / of_int K"
    using k by (simp add: q_def N_def K_def field_simps)
  also have "\<dots> = of_int n + a"
    using Kr by (simp add: NK a_def field_simps)
  finally have qa: "q + 1 / 2 = of_int n + a" .
  have "1 / of_int K \<le> a"
    unfolding a_def using r1 Kr by (simp add: divide_right_mono)
  moreover have "(of_int K :: rat) \<le> of_int (2 ^ 33)" using K33 by (simp only: of_int_le_iff)
  then have K33r: "(1::rat) / 2 ^ 33 \<le> 1 / of_int K"
    using Kr by (simp add: field_simps)
  ultimately have a_lo: "1 / 2 ^ 33 \<le> a" by simp
  have "a \<le> (of_int K - 1) / of_int K"
    unfolding a_def using rK Kr by (simp add: divide_right_mono)
  also have "\<dots> = 1 - 1 / of_int K" using Kr by (simp add: field_simps)
  finally have a_hi: "a \<le> 1 - 1 / 2 ^ 33" using K33r by simp
  have err: "\<bar>p - q\<bar> \<le> 164 / 2 ^ 53"
    unfolding p_def q_def using k mk by (rule percentage_error)
  have "round q = n"
    unfolding round_def using qa a_lo a_hi by (intro floor_unique) simp_all
  moreover have "Math_round p = n"
    unfolding Math_round_def
  proof (rule floor_unique)
    show "of_int n \<le> p + 1 / 2" using qa a_lo err by (simp add: abs_if split: if_splits)
    show "p + 1 / 2 < of_int n + 1" using qa a_hi err by (simp add: abs_if split: if_splits)
  qed
  ultimately show ?thesis by (simp add: p_def q_def)
qed

lemma Math_round_percentage:
  assumes k: "0 < k" and k32: "k < 2 ^ 32" and mk: "m \<le> k"
    and ties: "(200 * m + k) mod (2 * k) = 0 \<Longrightarrow> k < 40"
  shows "Math_round (percentage m k) = round (100 * of_nat m / of_nat k :: rat)"
proof (cases "(200 * m + k) mod (2 * k) = 0")
  case True
  show ?thesis
    by (simp only: percentage_tie[OF k ties[OF True] mk True] Math_round_def round_def)
next
  case False
  with k k32 mk show ?thesis by (rule Math_round_percentage_off_ties)
qed

lemma Math_round_percentage_bounds:
  assumes "m \<le> k"
  shows "0 \<le> Math_round (percentage m k)" and "Math_round (percentage m k) \<le> 100"
proof -
  have "0 \<le> Math_round (percentage m k) \<and> Math_round (percentage m k) \<le> 100"
  proof (cases "k = 0")
    case True
    have "\<lfloor>(100::rat) + 1 / 2\<rfloor> = 100" by (rule floor_unique) simp_all
    with True show ?thesis by (simp add: percentage_def Math_round_def)
  next
    case False
    then have k: "0 < k" by simp
    define p where "p = percentage m k"
    define q :: rat where "q = 100 * of_nat m / of_nat k"
    have err: "\<bar>p - q\<bar> \<le> 164 / 2 ^ 53" and p0: "0 \<le> p"
      unfolding p_def q_def using k assms by (rule percentage_error)+
    have "of_nat m / (of_nat k :: rat) \<le> 1" using k assms by simp
    then have q100: "q \<le> 100" by (simp add: q_def)
    have "0 \<le> \<lfloor>p + 1 / 2\<rfloor>" using p0 by (simp add: zero_le_floor)
    moreover have "p + 1 / 2 < 101" using err q100 by (simp add: abs_if split: if_splits)
    then have "\<lfloor>p + 1 / 2\<rfloor> < 101" by (simp add: floor_less_iff)
    ultimately show ?thesis by (simp add: Math_round_def p_def)
  qed
  then show "0 \<le> Math_round (percentage m k)" and "Math_round (percentage m k) \<le> 100"
    by simp_all
qed

lemma percentage_three_tenths: "binary64 (binary64 (3 / 10) * 100) = 30"
  by code_simp

lemma relevant_exact:
  assumes k: "0 < k" and kb: "k < 2 ^ 32" and mk: "m \<le> k"
  shows "(30 \<le> percentage m k) = (3 * k \<le> 10 * m)"
proof -
  define p where "p = percentage m k"
  define q :: rat where "q = 100 * of_nat m / of_nat k"
  define a :: rat where "a = 10 / of_nat k"
  have err: "\<bar>p - q\<bar> \<le> 164 / 2 ^ 53"
    unfolding p_def q_def using k mk by (rule percentage_error)
  have kr: "(0::rat) < of_nat k" using k by simp
  have "(of_nat k :: rat) < of_nat (2 ^ 32)" using kb by (simp only: of_nat_less_iff)
  then have kr2: "(of_nat k :: rat) < 2 ^ 32" by simp
  have "(10::rat) / 2 ^ 32 < 10 / of_nat k"
    using kr kr2 by (intro divide_strict_left_mono) simp_all
  then have a: "164 / 2 ^ 53 < a" by (simp add: a_def)
  define b :: rat where "b = of_nat m / of_nat k"
  define c :: rat where "c = 1 / of_nat k"
  have qb: "q = 100 * b" by (simp add: q_def b_def)
  have ac: "a = 10 * c" by (simp add: a_def c_def)
  have three: "3 * of_nat k / (of_nat k :: rat) = 3" using kr by simp
  consider (eq) "10 * m = 3 * k" | (gt) "3 * k + 1 \<le> 10 * m" | (lt) "10 * m + 1 \<le> 3 * k"
    by linarith
  then show ?thesis
  proof cases
    case eq
    then have "(of_nat (10 * m) :: rat) = of_nat (3 * k)" by simp
    then have r: "of_nat m / of_nat k = (3 / 10 :: rat)" using kr by (simp add: field_simps)
    have "percentage m k = 30"
      by (simp only: percentage_of_ratio[OF k r] percentage_three_tenths)
    with eq show ?thesis by simp
  next
    case gt
    then have "(of_nat (3 * k + 1) :: rat) \<le> of_nat (10 * m)" by (simp only: of_nat_le_iff)
    then have "3 * of_nat k + 1 \<le> 10 * (of_nat m :: rat)" by simp
    then have "(3 * of_nat k + 1) / of_nat k \<le> 10 * (of_nat m :: rat) / of_nat k"
      using kr by (intro divide_right_mono) simp_all
    then have "3 + c \<le> 10 * b"
      by (simp only: add_divide_distrib three c_def b_def times_divide_eq_right)
    then have "30 + a \<le> q" by (simp add: qb ac)
    with err a have "30 \<le> p" by (simp add: abs_if split: if_splits)
    with gt show ?thesis by (simp add: p_def)
  next
    case lt
    then have "(of_nat (10 * m + 1) :: rat) \<le> of_nat (3 * k)" by (simp only: of_nat_le_iff)
    then have "10 * (of_nat m :: rat) + 1 \<le> 3 * of_nat k" by simp
    then have "(10 * (of_nat m :: rat) + 1) / of_nat k \<le> 3 * of_nat k / of_nat k"
      using kr by (intro divide_right_mono) simp_all
    then have "10 * b + c \<le> 3"
      by (simp only: add_divide_distrib three c_def b_def times_divide_eq_right)
    then have "q \<le> 30 - a" by (simp add: qb ac)
    with err a have "p < 30" by (simp add: abs_if split: if_splits)
    with lt show ?thesis by (simp add: p_def)
  qed
qed

subsection \<open>Ticket IDs as pattern source, and a ticket with forty keywords\<close>

lemma lower_not_syntax:
  assumes "isUpperAZ c \<or> isDigit c \<or> c = CHR ''-''"
  shows "toLowerChar c \<notin> set regexSyntaxChars"
proof -
  define n where "n = (of_char c :: nat)"
  have c: "c = char_of n" by (simp add: n_def)
  have n: "n < 256" by (simp add: n_def)
  from assms have "(65 \<le> n \<and> n \<le> 90) \<or> (48 \<le> n \<and> n \<le> 57) \<or> n = 45"
    by (auto simp: isUpperAZ_def isDigit_def n_def Let_def)
  then have "(of_char (toLowerChar c) :: nat) \<in> {97..122} \<union> {48..57} \<union> {45}"
    using n by (auto simp: toLowerChar_def Let_def n_def[symmetric] c)
  then show ?thesis
    by (auto simp: regexSyntaxChars_def)
qed

lemma ticketAt_chars:
  assumes "ticketAt s = Some (key, num, rest)"
  shows "\<forall>c\<in>set (key @ ''-'' @ num). isUpperAZ c \<or> isDigit c \<or> c = CHR ''-''"
proof -
  from assms have "key = takeWhile isUpperAZ s"
    by (auto simp: ticketAt_def Let_def split: if_splits list.splits)
  moreover from assms have "\<exists>r. num = takeWhile isDigit r"
    by (auto simp: ticketAt_def Let_def split: if_splits list.splits)
  ultimately show ?thesis by (auto dest: set_takeWhileD)
qed

lemma extractTicketId_chars:
  "extractTicketId s = Some t \<Longrightarrow> \<forall>c\<in>set t. isUpperAZ c \<or> isDigit c \<or> c = CHR ''-''"
proof (induction s)
  case Nil
  then show ?case by simp
next
  case (Cons a s)
  show ?case
  proof (cases "ticketAt (a # s)")
    case None
    with Cons show ?thesis by simp
  next
    case (Some r)
    obtain key num rest where r: "r = (key, num, rest)" by (cases r)
    with Some Cons.prems have "t = key @ ''-'' @ num" by simp
    with ticketAt_chars[OF Some[unfolded r]] show ?thesis by simp
  qed
qed

lemma extracted_patternCharacters:
  assumes "extractTicketId s = Some t"
  shows "patternCharacters (toLowerCase t)"
proof -
  have "toLowerChar c \<notin> set regexSyntaxChars" if "c \<in> set t" for c
    using extractTicketId_chars[OF assms] that by (intro lower_not_syntax) blast
  then show ?thesis
    by (simp add: patternCharacters_def toLowerCase_def list_all_iff)
qed

lemma fortySummary_nonempty: "fortySummary \<noteq> []"
  by (simp add: fortySummary_def)

lemma forty_keywords_extracted:
  "extractKeywords \<lparr> minKeywordLength = 3, maxKeywords = 40, stoplist = [] \<rparr> fortySummary =
     fortyKeywords"
  by code_simp

lemma clean_forty: "cleanName rx fortyBranch ''SHOP-1'' = Returns (drop 15 fortyBranch)"
proof -
  have p: "patternCharacters (toLowerCase ''SHOP-1'')" by code_simp
  have "removePrefix (removeTicketId (toLowerCase ''SHOP-1'') (toLowerCase fortyBranch)) =
      drop 15 fortyBranch"
    by code_simp
  then show ?thesis by (simp only: pattern_returns[OF p])
qed

lemma matched_forty:
  "filter (keywordMatches (drop 15 fortyBranch)) fortyKeywords = take 23 fortyKeywords"
  by code_simp

lemma missing_forty:
  "filter (\<lambda>k. \<not> keywordMatches (drop 15 fortyBranch) k) fortyKeywords = drop 23 fortyKeywords"
  by code_simp

lemma length_forty:
  "length fortyKeywords = 40" "length (take 23 fortyKeywords) = 23"
  by (simp_all add: fortyKeywords_def)

lemma percentage_23_40: "percentage 23 40 = 8092405580431359 / 140737488355328"
  by code_simp

lemma Math_round_23_40: "Math_round (8092405580431359 / 140737488355328) = 57"
  by code_simp

lemma round_23_40: "round (100 * 23 / 40 :: rat) = 58"
  by code_simp

lemma score_forty:
  "score fortyKeywords s (drop 15 fortyBranch) =
     \<lparr> relevant = True, matchPercentage = Some 57,
       matchedKeywords = Some (take 23 fortyKeywords),
       missingKeywords = drop 23 fortyKeywords,
       allKeywords = Some fortyKeywords,
       relevanceMessage = ContentRelevance (8092405580431359 / 140737488355328) 23 40 \<rparr>"
  by (simp only: score_def Let_def member_filter_matched)
    (simp add: matched_forty missing_forty length_forty percentage_23_40 Math_round_23_40)

subsection \<open>Verdicts without keywords or without a summary\<close>

lemma percentage_no_keywords: "Math_round (percentage m 0) = 100"
proof -
  have "\<lfloor>(100::rat) + 1 / 2\<rfloor> = 100" by (rule floor_unique) simp_all
  then show ?thesis by (simp add: percentage_def Math_round_def)
qed

lemma relevant_no_keywords: "(30 \<le> percentage m 0) = True"
  by (simp add: percentage_def)

lemma score_no_keywords:
  "score [] s clean =
     \<lparr> relevant = True, matchPercentage = Some 100, matchedKeywords = Some [],
       missingKeywords = [], allKeywords = Some [],
       relevanceMessage = ContentRelevance 100 0 0 \<rparr>"
proof -
  have "\<lfloor>(100::rat) + 1 / 2\<rfloor> = 100" by (rule floor_unique) simp_all
  then show ?thesis by (simp add: score_def percentage_def Math_round_def)
qed

lemma no_summary_call:
  assumes "summary = None \<or> summary = Some []"
  shows "validateContentRelevance rx ek name summary tid = Returns noSummaryVerdict"
  using assms by (auto simp: validateContentRelevance_def)

subsection \<open>The rounded percentage of a scoring call\<close>

text \<open>
  \<open>100 * m / k\<close> lies exactly half-way between two integers when \<open>2 * k\<close> divides
  \<open>200 * m + k\<close>. For every keyword list (an array, so shorter than \<open>2 ^ 32\<close>) the rounded
  percentage is an integer between 0 and 100, it is 100 for the empty list, and it is
  \<open>round (100 * |matched| / |keywords|)\<close> away from those ties, and at them as well when
  the list has fewer than forty keywords.
\<close>

lemma matchPercentage_rounding:
  assumes "validateContentRelevance rx ek name (Some summary) tid = Returns v"
    and "summary \<noteq> []" and "length (ek summary) < 2 ^ 32"
  shows "\<exists>matched p. matchedKeywords v = Some matched \<and> matchPercentage v = Some p \<and>
           0 \<le> p \<and> p \<le> 100 \<and>
           (ek summary = [] \<longrightarrow> p = 100) \<and>
           (ek summary \<noteq> [] \<and>
            ((200 * length matched + length (ek summary)) mod (2 * length (ek summary)) \<noteq> 0 \<or>
             length (ek summary) < 40) \<longrightarrow>
              p = round (100 * of_nat (length matched) / of_nat (length (ek summary)) :: rat))"
proof -
  from assms(1,2) obtain clean where v: "v = score (ek summary) summary clean"
    by (rule scoring_call)
  define matched where "matched = filter (keywordMatches clean) (ek summary)"
  define p where "p = Math_round (percentage (length matched) (length (ek summary)))"
  have le: "length matched \<le> length (ek summary)" by (simp add: matched_def)
  have m: "matchedKeywords v = Some matched" by (simp add: v score_fields matched_def)
  have pv: "matchPercentage v = Some p" by (simp add: v score_fields matched_def p_def)
  have b: "0 \<le> p" "p \<le> 100" unfolding p_def using le by (rule Math_round_percentage_bounds)+
  have e: "p = 100" if "ek summary = []" using that by (simp add: p_def percentage_no_keywords)
  have r: "p = round (100 * of_nat (length matched) / of_nat (length (ek summary)) :: rat)"
    if "ek summary \<noteq> []"
      "(200 * length matched + length (ek summary)) mod (2 * length (ek summary)) \<noteq> 0 \<or>
       length (ek summary) < 40"
    unfolding p_def using that le assms(3) by (intro Math_round_percentage) auto
  from m pv b e r show ?thesis by blast
qed

section \<open>The claims\<close>

text \<open>
  C1. As stated (the scorer does not decide pass/fail and only reports the percentage,
  the caller applying a configured threshold) the claim fails: the function has no
  threshold parameter and returns the decision itself, in the field \<open>relevant\<close>. What
  holds: without a summary \<open>relevant\<close> is true; otherwise \<open>relevant\<close> is true exactly when
  the keyword list is empty or at least 30 percent of the keywords matched, that is
  \<open>3 * |keywords| \<le> 10 * |matched|\<close>; the threshold 30 is a constant of the function,
  compared with the unrounded percentage. The bound \<open>2 ^ 32\<close> is the length limit of a
  JavaScript array.
\<close>

theorem relevant_decided_in_scorer:
  assumes "validateContentRelevance rx ek name summary tid = Returns v"
  shows "(summary = None \<or> summary = Some [] \<longrightarrow> relevant v) \<and>
         (\<forall>s. summary = Some s \<and> s \<noteq> [] \<and> length (ek s) < 2 ^ 32 \<longrightarrow>
            (\<exists>matched. matchedKeywords v = Some matched \<and>
               relevant v = (ek s = [] \<or> 3 * length (ek s) \<le> 10 * length matched)))"
proof (intro conjI impI allI)
  assume "summary = None \<or> summary = Some []"
  then have "validateContentRelevance rx ek name summary tid = Returns noSummaryVerdict"
    by (rule no_summary_call)
  with assms have "v = noSummaryVerdict" by simp
  then show "relevant v" by (simp add: noSummaryVerdict_def)
next
  fix s
  assume a: "summary = Some s \<and> s \<noteq> [] \<and> length (ek s) < 2 ^ 32"
  with assms obtain clean where v: "v = score (ek s) s clean"
    by (auto elim: scoring_call)
  define matched where "matched = filter (keywordMatches clean) (ek s)"
  have le: "length matched \<le> length (ek s)" by (simp add: matched_def)
  have m: "matchedKeywords v = Some matched" by (simp add: v score_fields matched_def)
  have r: "relevant v = (30 \<le> percentage (length matched) (length (ek s)))"
    by (simp add: v score_fields matched_def)
  have "relevant v = (ek s = [] \<or> 3 * length (ek s) \<le> 10 * length matched)"
  proof (cases "ek s = []")
    case True
    then show ?thesis by (simp add: r relevant_no_keywords)
  next
    case False
    then have "0 < length (ek s)" by simp
    from relevant_exact[OF this _ le] a False show ?thesis by (simp add: r)
  qed
  with m show "\<exists>matched. matchedKeywords v = Some matched \<and>
      relevant v = (ek s = [] \<or> 3 * length (ek s) \<le> 10 * length matched)" by blast
qed

theorem relevant_decided_in_scorer_witness:
  "validateContentRelevance rejectingEngine (givenKeywords giftCardKeywords)
     ''feature/SHOP-8548-gift-card-app''
     (Some giftCardSummary) ''SHOP-8548'' =
     Returns (score giftCardKeywords giftCardSummary ''gift-card-app'') \<and>
   length (givenKeywords giftCardKeywords giftCardSummary) < 2 ^ 32 \<and>
   matchedKeywords (score giftCardKeywords giftCardSummary ''gift-card-app'') =
     Some [''app'', ''gift'', ''cards''] \<and>
   relevant (score giftCardKeywords giftCardSummary ''gift-card-app'') \<and>
   validateContentRelevance rejectingEngine (givenKeywords giftCardKeywords)
     ''feature/SHOP-8548-gift-card-app''
     None ''SHOP-8548'' = Returns noSummaryVerdict \<and>
   relevant noSummaryVerdict"
proof -
  let ?v = "score giftCardKeywords giftCardSummary ''gift-card-app''"
  note sc = scored_gift_card_app [of rejectingEngine giftCardKeywords]
  have l: "length (givenKeywords giftCardKeywords giftCardSummary) < 2 ^ 32"
    by (simp add: givenKeywords_def giftCardKeywords_def)
  have m: "matchedKeywords ?v = Some [''app'', ''gift'', ''cards'']"
    by (simp only: score_fields giftCardKeywords_matched)
  have n: "validateContentRelevance rejectingEngine (givenKeywords giftCardKeywords)
      ''feature/SHOP-8548-gift-card-app'' None ''SHOP-8548'' = Returns noSummaryVerdict"
    by (simp add: no_summary_call)
  have "\<exists>matched. matchedKeywords ?v = Some matched \<and>
      relevant ?v =
        (givenKeywords giftCardKeywords giftCardSummary = [] \<or>
         3 * length (givenKeywords giftCardKeywords giftCardSummary) \<le> 10 * length matched)"
    using relevant_decided_in_scorer [OF sc] l giftCardSummary_nonempty by blast
  with m have "relevant ?v"
    by (auto simp: givenKeywords_def giftCardKeywords_def)
  moreover have "relevant noSummaryVerdict"
    using relevant_decided_in_scorer [OF n] by simp
  ultimately show ?thesis using sc l m n by blast
qed

theorem user_authentication_counterexample:
  "validateContentRelevance rejectingEngine (givenKeywords giftCardKeywords)
     ''feature/SHOP-8548-user-authentication'' (Some giftCardSummary) ''SHOP-8548'' =
     Returns \<lparr> relevant = False, matchPercentage = Some 0, matchedKeywords = Some [],
       missingKeywords = giftCardKeywords, allKeywords = Some giftCardKeywords,
       relevanceMessage = LowContentRelevance 0 giftCardSummary \<rparr>"
  by code_simp

text \<open>
  C2. For every keyword \<open>k\<close> of the keyword set, \<open>k\<close> is among the matched keywords if and
  only if the cleaned, lower-cased name contains \<open>k\<close> verbatim as a substring, or \<open>k\<close> has
  at least 4 characters and the cleaned name contains the first 4 characters of \<open>k\<close>.
  Keywords shorter than 4 characters match only verbatim. The statement is about calls
  that score, that is, with a non-empty summary.
\<close>

theorem keyword_matched_iff:
  assumes "validateContentRelevance rx ek name (Some summary) tid = Returns v"
    and "summary \<noteq> []" and "k \<in> set (ek summary)"
  shows "\<exists>clean matched. cleanName rx name tid = Returns clean \<and> matchedKeywords v = Some matched \<and>
           (k \<in> set matched \<longleftrightarrow>
              sublist k clean \<or> (4 \<le> length k \<and> sublist (take 4 k) clean))"
proof -
  from assms(1,2) obtain clean where c: "cleanName rx name tid = Returns clean"
    and v: "v = score (ek summary) summary clean" by (rule scoring_call)
  show ?thesis
    using c assms(3)
    by (simp add: v score_fields keywordMatches_def str_includes_sublist substring0_def)
qed

theorem keyword_matched_iff_witness:
  "validateContentRelevance rejectingEngine (givenKeywords giftCardKeywords)
     ''feature/SHOP-8548-gift-card-app''
     (Some giftCardSummary) ''SHOP-8548'' =
     Returns (score giftCardKeywords giftCardSummary ''gift-card-app'') \<and>
   ''cards'' \<in> set (givenKeywords giftCardKeywords giftCardSummary) \<and>
   (\<exists>clean matched.
      cleanName rejectingEngine ''feature/SHOP-8548-gift-card-app'' ''SHOP-8548'' = Returns clean \<and>
      matchedKeywords (score giftCardKeywords giftCardSummary ''gift-card-app'') = Some matched \<and>
      (''cards'' \<in> set matched \<longleftrightarrow>
         sublist ''cards'' clean \<or>
         (4 \<le> length ''cards'' \<and> sublist (take 4 ''cards'') clean)))"
proof -
  note sc = scored_gift_card_app [of rejectingEngine giftCardKeywords]
  have k: "''cards'' \<in> set (givenKeywords giftCardKeywords giftCardSummary)"
    by (simp add: givenKeywords_def giftCardKeywords_def)
  show ?thesis
    using keyword_matched_iff [OF sc giftCardSummary_nonempty k] sc k by blast
qed

text \<open>
  C3. For every scoring call \<open>matchPercentage\<close> is \<open>round (100 * |matched| / |keywords|)\<close>,
  and 100 when the keyword set is empty. The function computes
  \<open>Math.round((matched / total) * 100)\<close> in double precision, dividing before it
  multiplies, and at an exact tie the two roundings of that order can push the product
  below the half. At the call evaluated here the keyword list has forty keywords and the
  name contains twenty-three of them: the quotient 23 / 40 rounds to
  0.57499999999999995559 and its product with 100 to 57.49999999999999289 (the fraction
  in the message field), so the function returns 57, where
  \<open>round (100 * 23 / 40) = round 57.5 = 58\<close>. The forty keywords are what the extractor of
  the spec returns for \<open>fortySummary\<close> when the maximum is 40 (\<open>forty_keywords_extracted\<close>).
  Away from exact ties, and at the ties of lists shorter than forty keywords, the function
  returns what the claim says (\<open>matchPercentage_rounding\<close>).
\<close>

theorem matchPercentage_forty_keywords:
  "validateContentRelevance engine (givenKeywords fortyKeywords) fortyBranch (Some fortySummary)
     ''SHOP-1'' =
     Returns \<lparr> relevant = True, matchPercentage = Some 57,
       matchedKeywords = Some (take 23 fortyKeywords),
       missingKeywords = drop 23 fortyKeywords,
       allKeywords = Some fortyKeywords,
       relevanceMessage = ContentRelevance (8092405580431359 / 140737488355328) 23 40 \<rparr> \<and>
   length (take 23 fortyKeywords) = 23 \<and> length fortyKeywords = 40 \<and>
   round (100 * 23 / 40 :: rat) = 58"
proof -
  have "validateContentRelevance engine (givenKeywords fortyKeywords) fortyBranch
      (Some fortySummary) ''SHOP-1'' =
      Returns (score fortyKeywords fortySummary (drop 15 fortyBranch))"
    by (simp add: validateContentRelevance_def givenKeywords_def clean_forty
        fortySummary_nonempty)
  then show ?thesis
    unfolding score_forty using length_forty round_23_40 by blast
qed

text \<open>
  C4. For every call that scores, \<open>matchedKeywords\<close> and \<open>missingKeywords\<close> partition the
  keyword list: their union is the keyword set, they share no keyword, each is a
  subsequence of the keyword list in its order, and together they have as many entries
  as the keyword list.
\<close>

theorem matched_missing_partition:
  assumes "validateContentRelevance rx ek name (Some summary) tid = Returns v"
    and "summary \<noteq> []"
  shows "\<exists>matched. matchedKeywords v = Some matched \<and>
           set matched \<union> set (missingKeywords v) = set (ek summary) \<and>
           set matched \<inter> set (missingKeywords v) = {} \<and>
           subseq matched (ek summary) \<and> subseq (missingKeywords v) (ek summary) \<and>
           length matched + length (missingKeywords v) = length (ek summary)"
proof -
  from assms obtain clean where v: "v = score (ek summary) summary clean" by (rule scoring_call)
  show ?thesis
    by (auto simp: v score_fields missing_of_score sum_length_filter_compl)
qed

theorem matched_missing_partition_witness:
  "validateContentRelevance rejectingEngine (givenKeywords giftCardKeywords)
     ''feature/SHOP-8548-gift-card-app''
     (Some giftCardSummary) ''SHOP-8548'' =
     Returns (score giftCardKeywords giftCardSummary ''gift-card-app'') \<and>
   (\<exists>matched.
      matchedKeywords (score giftCardKeywords giftCardSummary ''gift-card-app'') = Some matched \<and>
      set matched \<union> set (missingKeywords (score giftCardKeywords giftCardSummary ''gift-card-app'')) =
        set (givenKeywords giftCardKeywords giftCardSummary) \<and>
      set matched \<inter> set (missingKeywords (score giftCardKeywords giftCardSummary ''gift-card-app'')) = {} \<and>
      subseq matched (givenKeywords giftCardKeywords giftCardSummary) \<and>
      subseq (missingKeywords (score giftCardKeywords giftCardSummary ''gift-card-app''))
        (givenKeywords giftCardKeywords giftCardSummary) \<and>
      length matched + length (missingKeywords (score giftCardKeywords giftCardSummary ''gift-card-app'')) =
        length (givenKeywords giftCardKeywords giftCardSummary))"
proof -
  note sc = scored_gift_card_app [of rejectingEngine giftCardKeywords]
  show ?thesis
    using matched_missing_partition [OF sc giftCardSummary_nonempty] sc by blast
qed

text \<open>
  C5. As stated (an empty or missing summary, like an empty keyword set, gives a verdict
  of 100 percent with empty matched and missing lists) the claim fails: the guard for a
  falsy summary returns an object with \<open>relevant = true\<close>, the message and an empty
  \<open>missingKeywords\<close>, and with neither \<open>matchPercentage\<close> nor \<open>matchedKeywords\<close>. What
  holds: an empty or missing summary never produces an error and returns exactly that
  object, whatever the name and the ticket ID; with a non-empty summary whose keyword
  list is empty, the function returns the verdict of 100 percent, relevant, with empty
  matched and missing lists, whenever the \<open>RegExp\<close> constructor returns an expression
  for the ticket ID, whatever that expression removes from the name; and the constructor
  does so for every ticket ID without a syntax character. The second half of the
  counterexample is a ticket ID for which the constructor throws (C6).
\<close>

theorem vacuous_verdicts:
  "(summary = None \<or> summary = Some [] \<longrightarrow>
      validateContentRelevance rx ek name summary tid =
        Returns \<lparr> relevant = True, matchPercentage = None, matchedKeywords = None,
          missingKeywords = [], allKeywords = None,
          relevanceMessage = NoSummaryAvailable \<rparr>) \<and>
   (\<forall>s re. summary = Some s \<and> s \<noteq> [] \<and> ek s = [] \<and>
      ticketRegExp rx (toLowerCase tid) = Returns re \<longrightarrow>
      validateContentRelevance rx ek name summary tid =
        Returns \<lparr> relevant = True, matchPercentage = Some 100, matchedKeywords = Some [],
          missingKeywords = [], allKeywords = Some [],
          relevanceMessage = ContentRelevance 100 0 0 \<rparr>) \<and>
   (\<forall>s. summary = Some s \<and> s \<noteq> [] \<and> ek s = [] \<and> patternCharacters (toLowerCase tid) \<longrightarrow>
      validateContentRelevance rx ek name summary tid =
        Returns \<lparr> relevant = True, matchPercentage = Some 100, matchedKeywords = Some [],
          missingKeywords = [], allKeywords = Some [],
          relevanceMessage = ContentRelevance 100 0 0 \<rparr>)"
proof (intro conjI impI allI)
  assume "summary = None \<or> summary = Some []"
  then show "validateContentRelevance rx ek name summary tid =
      Returns \<lparr> relevant = True, matchPercentage = None, matchedKeywords = None,
        missingKeywords = [], allKeywords = None, relevanceMessage = NoSummaryAvailable \<rparr>"
    by (simp add: no_summary_call noSummaryVerdict_def)
next
  fix s re
  assume a: "summary = Some s \<and> s \<noteq> [] \<and> ek s = [] \<and>
    ticketRegExp rx (toLowerCase tid) = Returns re"
  then show "validateContentRelevance rx ek name summary tid =
      Returns \<lparr> relevant = True, matchPercentage = Some 100, matchedKeywords = Some [],
        missingKeywords = [], allKeywords = Some [],
        relevanceMessage = ContentRelevance 100 0 0 \<rparr>"
    by (simp add: validateContentRelevance_def cleanName_def score_no_keywords)
next
  fix s
  assume "summary = Some s \<and> s \<noteq> [] \<and> ek s = [] \<and> patternCharacters (toLowerCase tid)"
  then show "validateContentRelevance rx ek name summary tid =
      Returns \<lparr> relevant = True, matchPercentage = Some 100, matchedKeywords = Some [],
        missingKeywords = [], allKeywords = Some [],
        relevanceMessage = ContentRelevance 100 0 0 \<rparr>"
    by (simp add: validateContentRelevance_def pattern_returns score_no_keywords)
qed

theorem vacuous_verdicts_witness:
  "validateContentRelevance rejectingEngine (givenKeywords []) ''feature/SHOP-1-x'' (Some '''')
     ''SHOP-1'' =
     Returns \<lparr> relevant = True, matchPercentage = None, matchedKeywords = None,
       missingKeywords = [], allKeywords = None, relevanceMessage = NoSummaryAvailable \<rparr> \<and>
   ''Do it'' \<noteq> [] \<and> givenKeywords [] ''Do it'' = [] \<and>
   patternCharacters (toLowerCase ''SHOP-1'') \<and>
   ticketRegExp rejectingEngine (toLowerCase ''SHOP-1'') =
     Returns (removeTicketId (toLowerCase ''SHOP-1'')) \<and>
   validateContentRelevance rejectingEngine (givenKeywords []) ''feature/SHOP-1-x''
     (Some ''Do it'') ''SHOP-1'' =
     Returns \<lparr> relevant = True, matchPercentage = Some 100, matchedKeywords = Some [],
       missingKeywords = [], allKeywords = Some [],
       relevanceMessage = ContentRelevance 100 0 0 \<rparr>"
proof -
  note v = vacuous_verdicts [of _ rejectingEngine "givenKeywords []" "''feature/SHOP-1-x''"
      "''SHOP-1''"]
  have p: "patternCharacters (toLowerCase ''SHOP-1'')" by code_simp
  have n: "''Do it'' \<noteq> []" by simp
  have e: "givenKeywords [] ''Do it'' = []" by (simp add: givenKeywords_def)
  have "Some '''' = None \<or> Some '''' = Some ([] :: string)" by simp
  with v [of "Some ''''"]
  have a: "validateContentRelevance rejectingEngine (givenKeywords []) ''feature/SHOP-1-x''
      (Some '''') ''SHOP-1'' =
      Returns \<lparr> relevant = True, matchPercentage = None, matchedKeywords = None,
        missingKeywords = [], allKeywords = None, relevanceMessage = NoSummaryAvailable \<rparr>"
    by blast
  have r: "ticketRegExp rejectingEngine (toLowerCase ''SHOP-1'') =
      Returns (removeTicketId (toLowerCase ''SHOP-1''))"
    using p by (simp add: ticketRegExp_def)
  from v [of "Some ''Do it''"] n e r
  have b: "validateContentRelevance rejectingEngine (givenKeywords []) ''feature/SHOP-1-x''
      (Some ''Do it'') ''SHOP-1'' =
      Returns \<lparr> relevant = True, matchPercentage = Some 100, matchedKeywords = Some [],
        missingKeywords = [], allKeywords = Some [],
        relevanceMessage = ContentRelevance 100 0 0 \<rparr>"
    by blast
  from v [of "Some ''Do it''"] n e p
  have "validateContentRelevance rejectingEngine (givenKeywords []) ''feature/SHOP-1-x''
      (Some ''Do it'') ''SHOP-1'' =
      Returns \<lparr> relevant = True, matchPercentage = Some 100, matchedKeywords = Some [],
        missingKeywords = [], allKeywords = Some [],
        relevanceMessage = ContentRelevance 100 0 0 \<rparr>"
    by blast
  from a n e p r b show ?thesis by (intro conjI)
qed

theorem empty_summary_counterexample:
  "validateContentRelevance rejectingEngine (givenKeywords []) ''feature/SHOP-1-x'' (Some '''')
     ''SHOP-1'' = Returns noSummaryVerdict \<and>
   matchPercentage noSummaryVerdict = None \<and> matchedKeywords noSummaryVerdict = None \<and>
   validateContentRelevance rejectingEngine (givenKeywords []) ''feature/SHOP-1-x''
     (Some ''Do it'') ''*'' = Throws SyntaxError"
proof -
  have "startsWithQuantifier (toLowerCase ''*'')" by code_simp
  then have "cleanName rejectingEngine ''feature/SHOP-1-x'' ''*'' = Throws SyntaxError"
    by (rule quantifier_throws)
  then show ?thesis
    by (simp add: no_summary_call noSummaryVerdict_def validateContentRelevance_def)
qed

text \<open>
  C6. For all string inputs the scoring computation terminates normally and never
  throws. The function means to remove the ticket ID from the name (its comment says
  so), but passes the lower-cased ID unescaped to \<open>new RegExp\<close> as pattern source. At
  the call evaluated here the ticket ID is \<open>*\<close>: the source \<open>*[-_]*\<close> starts with a
  quantifier, the constructor throws a \<open>SyntaxError\<close> (nothing to repeat) and the
  function passes it on, for every engine, where the claim says that it returns a
  verdict. No ticket ID that \<open>extractTicketId\<close> finds in a name has a syntax character
  (\<open>extracted_patternCharacters\<close>), so the validators' own calls are not affected.
\<close>

theorem quantifier_ticket_id_throws:
  "validateContentRelevance engine (givenKeywords [''fix'', ''login''])
     ''feature/SHOP-1-fix-login'' (Some ''Fix login'') ''*'' = Throws SyntaxError"
proof -
  have "startsWithQuantifier (toLowerCase ''*'')" by code_simp
  then have "cleanName engine ''feature/SHOP-1-fix-login'' ''*'' = Throws SyntaxError"
    by (rule quantifier_throws)
  then show ?thesis by (simp add: validateContentRelevance_def)
qed

text \<open>
  C7. For every summary text and every configuration, \<open>extractKeywords\<close> returns a list
  without duplicates, with no element shorter than the configured minimum length and
  with at most the configured maximum count; its elements are candidate tokens of the
  summary, in the order in which each is first seen there.
\<close>

theorem extractKeywords_result:
  "distinct (extractKeywords cfg summary) \<and>
   (\<forall>k\<in>set (extractKeywords cfg summary). minKeywordLength cfg \<le> length k) \<and>
   length (extractKeywords cfg summary) \<le> maxKeywords cfg \<and>
   set (extractKeywords cfg summary) \<subseteq> set (candidateTokens cfg summary) \<and>
   sorted_wrt (\<lambda>a b. firstIndex (candidateTokens cfg summary) a
                      < firstIndex (candidateTokens cfg summary) b)
     (extractKeywords cfg summary)"
proof -
  let ?toks = "candidateTokens cfg summary"
  have sub: "set (extractKeywords cfg summary) \<subseteq> set ?toks"
    unfolding extractKeywords_def using dedupFrom_subset[of "[]" ?toks]
    by (meson order_trans set_take_subset)
  have len: "\<forall>t\<in>set ?toks. minKeywordLength cfg \<le> length t"
    by (simp add: candidateTokens_def)
  have "distinct (extractKeywords cfg summary)"
    by (simp add: extractKeywords_def dedupFrom_distinct)
  moreover have "\<forall>k\<in>set (extractKeywords cfg summary). minKeywordLength cfg \<le> length k"
    using sub len by blast
  moreover have "length (extractKeywords cfg summary) \<le> maxKeywords cfg"
    by (simp add: extractKeywords_def)
  moreover have "sorted_wrt (\<lambda>a b. firstIndex ?toks a < firstIndex ?toks b)
      (extractKeywords cfg summary)"
    unfolding extractKeywords_def by (rule sorted_wrt_take) (rule dedupFrom_first_seen)
  ultimately show ?thesis using sub by blast
qed

theorem extractKeywords_result_witness:
  "extractKeywords
     \<lparr> minKeywordLength = 3, maxKeywords = 4, stoplist = [''the'', ''a'', ''to'', ''is''] \<rparr>
     ''Fix the login: fix LOGIN page to reset password and session''
     = [''fix'', ''login'', ''page'', ''reset''] \<and>
   distinct [''fix'', ''login'', ''page'', ''reset''] \<and>
   list_all (\<lambda>k. (3::nat) \<le> length k) [''fix'', ''login'', ''page'', ''reset''] \<and>
   length [''fix'', ''login'', ''page'', ''reset''] \<le> (4::nat)"
proof -
  let ?cfg = "\<lparr> minKeywordLength = 3, maxKeywords = 4, stoplist = [''the'', ''a'', ''to'', ''is''] \<rparr>"
  let ?s = "''Fix the login: fix LOGIN page to reset password and session''"
  have e: "extractKeywords ?cfg ?s = [''fix'', ''login'', ''page'', ''reset'']" by code_simp
  show ?thesis using extractKeywords_result [of ?cfg ?s] unfolding e by simp
qed

text \<open>
  C8. Scoring is case-insensitive in the candidate name: scoring a name and scoring its
  lower-cased form give the same result, with the ticket ID as it is or lower-cased too.
  The results are equal as a whole, so the percentages and the keyword lists are.
\<close>

theorem case_insensitive_name:
  "validateContentRelevance rx ek (toLowerCase name) summary tid =
     validateContentRelevance rx ek name summary tid \<and>
   validateContentRelevance rx ek (toLowerCase name) summary (toLowerCase tid) =
     validateContentRelevance rx ek name summary tid"
  by (simp add: validateContentRelevance_def cleanName_lower Let_def split: option.splits)

theorem case_insensitive_name_witness:
  "toLowerCase ''Feature/SHOP-1-Gift-Cards'' = ''feature/shop-1-gift-cards'' \<and>
   toLowerCase ''SHOP-1'' = ''shop-1'' \<and>
   validateContentRelevance rejectingEngine (givenKeywords [''gift'', ''cards''])
     ''feature/shop-1-gift-cards''
     (Some ''Gift cards'') ''shop-1'' =
   validateContentRelevance rejectingEngine (givenKeywords [''gift'', ''cards''])
     ''Feature/SHOP-1-Gift-Cards''
     (Some ''Gift cards'') ''SHOP-1''"
proof -
  have n: "toLowerCase ''Feature/SHOP-1-Gift-Cards'' = ''feature/shop-1-gift-cards''"
    by code_simp
  have t: "toLowerCase ''SHOP-1'' = ''shop-1''" by code_simp
  show ?thesis
    using case_insensitive_name [of rejectingEngine "givenKeywords [''gift'', ''cards'']"
        "''Feature/SHOP-1-Gift-Cards''" "Some ''Gift cards''" "''SHOP-1''"]
    unfolding n t by (simp add: n t)
qed

text \<open>
  C9. Given the keyword set create, app, restrict, gift, cards and the ticket ID
  SHOP-8548, scoring the name feature/SHOP-8548-gift-card-app returns a verdict with
  matched keywords app, gift, cards (cards through its first four characters), missing
  keywords create, restrict, and 60 percent.
\<close>

theorem gift_card_app_scenario:
  assumes "ek summary = [''create'', ''app'', ''restrict'', ''gift'', ''cards'']"
    and "summary \<noteq> []"
  shows "\<exists>v. validateContentRelevance rx ek ''feature/SHOP-8548-gift-card-app'' (Some summary)
               ''SHOP-8548'' = Returns v \<and>
             matchedKeywords v = Some [''app'', ''gift'', ''cards''] \<and>
             missingKeywords v = [''create'', ''restrict''] \<and>
             matchPercentage v = Some 60"
proof -
  let ?clean = "''gift-card-app''"
  let ?v = "score (ek summary) summary ?clean"
  have n: "length [''app'', ''gift'', ''cards''] = (3::nat)"
    "length [''create'', ''app'', ''restrict'', ''gift'', ''cards''] = (5::nat)" by simp_all
  have r: "validateContentRelevance rx ek ''feature/SHOP-8548-gift-card-app'' (Some summary)
             ''SHOP-8548'' = Returns ?v"
    using assms(2) by (simp add: validateContentRelevance_def clean_gift_card_app)
  have m: "matchedKeywords ?v = Some [''app'', ''gift'', ''cards'']"
    by (simp only: score_fields assms(1) matched_gift_card_app)
  have p: "matchPercentage ?v = Some 60"
    by (simp only: score_fields assms(1) matched_gift_card_app n percentage_3_5)
  have mi: "missingKeywords ?v = [''create'', ''restrict'']"
    by (simp only: missing_of_score assms(1) missing_gift_card_app)
  from r m mi p show ?thesis by blast
qed

theorem gift_card_app_scenario_witness:
  "givenKeywords giftCardKeywords giftCardSummary =
     [''create'', ''app'', ''restrict'', ''gift'', ''cards''] \<and>
   giftCardSummary \<noteq> [] \<and>
   (\<exists>v. validateContentRelevance rejectingEngine (givenKeywords giftCardKeywords)
     ''feature/SHOP-8548-gift-card-app''
          (Some giftCardSummary) ''SHOP-8548'' = Returns v \<and>
        matchedKeywords v = Some [''app'', ''gift'', ''cards''] \<and>
        missingKeywords v = [''create'', ''restrict''] \<and>
        matchPercentage v = Some 60)"
proof -
  have k: "givenKeywords giftCardKeywords giftCardSummary =
      [''create'', ''app'', ''restrict'', ''gift'', ''cards'']"
    by (simp add: givenKeywords_def giftCardKeywords_def)
  show ?thesis
    using gift_card_app_scenario [of "givenKeywords giftCardKeywords" giftCardSummary
        rejectingEngine,
        OF k giftCardSummary_nonempty] k giftCardSummary_nonempty
    by blast
qed

text \<open>
  C10. In the simple validator, when \<open>validateBoth\<close> returns a valid result and both the
  branch result and the commit result carry a ticket ID, the two IDs are equal; and when
  both validations succeed with different ticket IDs, \<open>validateBoth\<close> returns an invalid
  result with the ticket-ID-mismatch message naming both IDs.
\<close>

theorem validateBoth_ticket_ids:
  "(valid (validateBoth cfg b c) \<and>
    ticketId (branchResult (validateBoth cfg b c)) = Some tb \<and>
    ticketId (commitResult (validateBoth cfg b c)) = Some tc \<longrightarrow> tb = tc) \<and>
   (valid (validateBranchName cfg b) \<and> valid (validateCommitMessage cfg c) \<and>
    ticketId (validateBranchName cfg b) = Some tb \<and>
    ticketId (validateCommitMessage cfg c) = Some tc \<and> tb \<noteq> tc \<longrightarrow>
    validateBoth cfg b c =
      \<lparr> valid = False, message = TicketIdMismatch tb tc,
        branchResult = validateBranchName cfg b,
        commitResult = validateCommitMessage cfg c \<rparr>)"
proof -
  have t: "truthy (Some x) = (x \<noteq> [])" for x by (simp add: truthy_def)
  show ?thesis
    using validateBranchName_ticketId[of cfg b tb] validateCommitMessage_ticketId[of cfg c tc]
    by (auto simp: validateBoth_def Let_def t interpolate_def)
qed

theorem validateBoth_ticket_ids_witness:
  "validateBoth defaultConfig ''feature/SHOP-12-add-thing'' ''SHOP-13-add-thing'' =
     \<lparr> valid = False, message = TicketIdMismatch ''SHOP-12'' ''SHOP-13'',
       branchResult = success BranchValid (Some ''SHOP-12'') (Some ''SHOP''),
       commitResult = success CommitValid (Some ''SHOP-13'') (Some ''SHOP'') \<rparr> \<and>
   valid (validateBoth defaultConfig ''feature/SHOP-12-add-thing'' ''SHOP-12-other'') \<and>
   ticketId (branchResult
     (validateBoth defaultConfig ''feature/SHOP-12-add-thing'' ''SHOP-12-other'')) = Some ''SHOP-12'' \<and>
   ticketId (commitResult
     (validateBoth defaultConfig ''feature/SHOP-12-add-thing'' ''SHOP-12-other'')) = Some ''SHOP-12''"
proof -
  have same: "validateBoth defaultConfig ''feature/SHOP-12-add-thing'' ''SHOP-12-other'' =
      \<lparr> valid = True, message = BothValid,
        branchResult = success BranchValid (Some ''SHOP-12'') (Some ''SHOP''),
        commitResult = success CommitValid (Some ''SHOP-12'') (Some ''SHOP'') \<rparr>"
    by (simp add: validateBoth_def valid_branch_SHOP_12 valid_commit_SHOP_12 success_def
        truthy_def)
  show ?thesis
    using validateBoth_ticket_ids [of defaultConfig "''feature/SHOP-12-add-thing''"
        "''SHOP-13-add-thing''" "''SHOP-12''" "''SHOP-13''"]
    by (simp add: same valid_branch_SHOP_12 valid_commit_SHOP_13 success_def)
qed

end
